theory Spec2Isabelle
  imports Main
begin

section \<open>The board component of proxx: data model\<close>

text \<open>
  The development embeds \<^verbatim>\<open>src/services/preact-canvas/components/board/index.tsx\<close>:
  the class \<^verbatim>\<open>Board\<close>, its private fields, and the part of the DOM and of the
  collaborators (renderer, animator, click callback) that its methods read and write.

  JavaScript numbers that hold grid coordinates and counts are modelled as \<open>int\<close>.
\<close>

record cell =
  flagged :: bool
  hasMine :: bool
  revealed :: bool
  touchingFlags :: int
  touchingMines :: int

definition defaultCell :: cell where
  "defaultCell =
     \<lparr>flagged = False, hasMine = False, revealed = False, touchingFlags = 0, touchingMines = 0\<rparr>"

text \<open>
  DOM elements. \<open>Button n\<close> is the \<open>n\<close>-th button made by \<^verbatim>\<open>document.createElement\<close>
  in \<^verbatim>\<open>_createTable\<close>; \<open>Body\<close> is \<^verbatim>\<open>document.body\<close>, which is what
  \<^verbatim>\<open>document.activeElement\<close> is after an element is blurred; \<open>Foreign n\<close> is any
  other element of the page (table cells, rows, elements outside the board).
\<close>

datatype element = Body | Button nat | Foreign nat

type_synonym buttonData = "int \<times> int \<times> cell"

type_synonym gridChange = "int \<times> int \<times> cell"

record stateChange =
  gridChanges :: "gridChange list option"

text \<open>
  What the component does to the outside: attribute writes, calls on the renderer, on
  the animator and on the \<^verbatim>\<open>onCellClick\<close> property, and the two methods it calls
  on an event. The click callback receives \<^verbatim>\<open>undefined\<close> (here \<open>None\<close>) when the
  side table has no entry for the button.
\<close>

datatype effect =
    SetAttribute element string string
  | RendererSetFocus int int
  | AnimatorUpdateCells "gridChange list"
  | OnCellClick "buttonData option" bool
  | PreventDefault
  | StopPropagation

text \<open>
  The component and its surroundings. \<open>width\<close>, \<open>height\<close> are the properties;
  \<open>isFeaturePhone\<close> and \<open>cellFocusMode\<close> are constants imported from modules that are
  not part of the embedded file, so they are parameters here; \<open>buttons\<close>,
  \<open>additionalButtonData\<close> and \<open>currentTabableBtn\<close> are the private fields of the same
  names; \<open>attrs\<close> holds the attributes of every element, \<open>activeElement\<close> is
  \<^verbatim>\<open>document.activeElement\<close> (\<open>None\<close> for \<^verbatim>\<open>null\<close>); \<open>effects\<close> is the log.
\<close>

record board =
  width :: int
  height :: int
  isFeaturePhone :: bool
  cellFocusMode :: bool
  buttons :: "element list"
  additionalButtonData :: "element \<rightharpoonup> buttonData"
  currentTabableBtn :: "element option"
  attrs :: "element \<Rightarrow> string \<rightharpoonup> string"
  activeElement :: "element option"
  effects :: "effect list"

text \<open>
  An exception does not undo the writes made before it: a thrown error carries the
  state at the throw.
\<close>

datatype error = TypeError

datatype result = Ok board | Throw error board

fun stateOf :: "result \<Rightarrow> board" where
  "stateOf (Ok s) = s"
| "stateOf (Throw e s) = s"

fun isOk :: "result \<Rightarrow> bool" where
  "isOk (Ok s) = True"
| "isOk (Throw e s) = False"

fun andThen :: "result \<Rightarrow> (board \<Rightarrow> result) \<Rightarrow> result" where
  "andThen (Ok s) f = f s"
| "andThen (Throw e s) f = Throw e s"

text \<open>A \<^verbatim>\<open>for ... of\<close> loop (and a counting loop over its index list) whose body may throw.\<close>

fun forEach :: "('a \<Rightarrow> board \<Rightarrow> result) \<Rightarrow> 'a list \<Rightarrow> board \<Rightarrow> result" where
  "forEach f [] s = Ok s"
| "forEach f (x # xs) s = andThen (f x s) (forEach f xs)"

text \<open>Reading a JavaScript array: \<^verbatim>\<open>undefined\<close> outside \<open>0 .. length - 1\<close>.\<close>

definition arrayGet :: "'a list \<Rightarrow> int \<Rightarrow> 'a option" where
  "arrayGet xs i = (if 0 \<le> i \<and> i < int (length xs) then Some (xs ! nat i) else None)"

text \<open>\<^verbatim>\<open>WeakMap.get\<close> and \<^verbatim>\<open>WeakMap.has\<close> on a value that may be \<^verbatim>\<open>null\<close>.\<close>

definition dataOf :: "board \<Rightarrow> element option \<Rightarrow> buttonData option" where
  "dataOf s e = (case e of None \<Rightarrow> None | Some b \<Rightarrow> additionalButtonData s b)"

definition logEffect :: "effect \<Rightarrow> board \<Rightarrow> board" where
  "logEffect e s = s\<lparr>effects := effects s @ [e]\<rparr>"

subsection \<open>The platform\<close>

text \<open>
  \<^verbatim>\<open>Element.setAttribute\<close> on an HTML element of an HTML document converts the name
  to ASCII lower case before it stores the value: \<^verbatim>\<open>"tabIndex"\<close> and \<^verbatim>\<open>"tabindex"\<close>
  are one attribute.
\<close>

definition asciiLower :: "char \<Rightarrow> char" where
  "asciiLower c =
     (let n = (of_char c :: nat) in if 65 \<le> n \<and> n \<le> 90 then char_of (n + 32) else c)"

definition asciiLowercase :: "string \<Rightarrow> string" where
  "asciiLowercase name = map asciiLower name"

definition setAttribute :: "board \<Rightarrow> element \<Rightarrow> string \<Rightarrow> string \<Rightarrow> board" where
  "setAttribute s e name v =
     logEffect (SetAttribute e (asciiLowercase name) v)
       (s\<lparr>attrs := (attrs s)(e := (attrs s e)(asciiLowercase name \<mapsto> v))\<rparr>)"

definition getAttribute :: "board \<Rightarrow> element \<Rightarrow> string \<Rightarrow> string option" where
  "getAttribute s e name = attrs s e (asciiLowercase name)"

text \<open>
  Number to string, as a template literal does it for an integer that a JavaScript
  number holds exactly (magnitude up to \<open>2^53\<close>; a count of touching mines is at
  most 8): decimal digits, most significant first, a minus sign before a negative.
\<close>

definition digitChar :: "nat \<Rightarrow> char" where
  "digitChar d = char_of (48 + d)"

fun natToString :: "nat \<Rightarrow> string" where
  "natToString n = (if n < 10 then [digitChar n] else natToString (n div 10) @ [digitChar (n mod 10)])"

declare natToString.simps [simp del]

definition numberToString :: "int \<Rightarrow> string" where
  "numberToString n = (if n < 0 then CHR ''-'' # natToString (nat (- n)) else natToString (nat n))"

subsection \<open>Focus visual\<close>

definition removeFocusVisual :: "board \<Rightarrow> board" where
  "removeFocusVisual s = logEffect (RendererSetFocus (- 1) (- 1)) s"

definition setFocusVisual :: "board \<Rightarrow> element \<Rightarrow> result" where
  "setFocusVisual s button =
     (case additionalButtonData s button of
        None \<Rightarrow> Throw TypeError s
      | Some (x, y, c) \<Rightarrow> Ok (logEffect (RendererSetFocus x y) s))"

text \<open>
  Every button of the side table was given \<^verbatim>\<open>removeFocusVisual\<close> as its blur listener
  in the loop iteration that registered it, and no other element has one. The blur
  event does not bubble.
\<close>

definition dispatchBlur :: "board \<Rightarrow> element \<Rightarrow> board" where
  "dispatchBlur s e = (if additionalButtonData s e \<noteq> None then removeFocusVisual s else s)"

text \<open>
  \<^verbatim>\<open>HTMLElement.focus()\<close>: nothing happens when the element has the focus already;
  otherwise the element that had it is sent a blur event and the element becomes the
  active one. \<^verbatim>\<open>HTMLElement.blur()\<close>: when the element has the focus, the body
  becomes the active element and the element is sent a blur event.
\<close>

definition elementFocus :: "board \<Rightarrow> element \<Rightarrow> board" where
  "elementFocus s e =
     (if activeElement s = Some e then s
      else (case activeElement s of
              None \<Rightarrow> s
            | Some a \<Rightarrow> dispatchBlur s a)\<lparr>activeElement := Some e\<rparr>)"

definition elementBlur :: "board \<Rightarrow> element \<Rightarrow> board" where
  "elementBlur s e =
     (if activeElement s = Some e then dispatchBlur (s\<lparr>activeElement := Some Body\<rparr>) e else s)"

section \<open>The methods of the component\<close>

subsection \<open>\<^verbatim>\<open>_updateButton\<close>\<close>

definition cellState :: "cell \<Rightarrow> string" where
  "cellState c =
     (if \<not> revealed c then (if flagged c then ''flag'' else ''hidden'')
      else if hasMine c then ''black hole''
      else if touchingMines c = 0 then ''blank''
      else numberToString (touchingMines c))"

text \<open>
  \<open>btn\<close> is \<open>None\<close> when the caller read it from outside the array. The label is
  written before the side table is read, so a button that is not in the side table
  keeps the new label when the store of the cell throws.
\<close>

definition updateButton :: "board \<Rightarrow> element option \<Rightarrow> cell \<Rightarrow> int \<Rightarrow> int \<Rightarrow> result" where
  "updateButton s btn c x y =
     (case btn of
        None \<Rightarrow> Throw TypeError s
      | Some b \<Rightarrow>
          (let s1 = setAttribute s b ''aria-label'' (cellState c) in
           case additionalButtonData s1 b of
             None \<Rightarrow> Throw TypeError s1
           | Some (bx, by, old) \<Rightarrow>
               Ok (s1\<lparr>additionalButtonData := (additionalButtonData s1)(b \<mapsto> (bx, by, c))\<rparr>)))"

subsection \<open>\<^verbatim>\<open>_doManualDomHandling\<close>\<close>

definition applyChange :: "gridChange \<Rightarrow> board \<Rightarrow> result" where
  "applyChange d s =
     (case d of (x, y, c) \<Rightarrow> updateButton s (arrayGet (buttons s) (y * width s + x)) c x y)"

definition doManualDomHandling :: "board \<Rightarrow> stateChange \<Rightarrow> result" where
  "doManualDomHandling s sc =
     (case gridChanges sc of
        None \<Rightarrow> Ok s
      | Some gc \<Rightarrow>
          andThen (forEach applyChange gc s) (\<lambda>s'. Ok (logEffect (AnimatorUpdateCells gc) s')))"

subsection \<open>\<^verbatim>\<open>_createTable\<close>\<close>

text \<open>
  The body of the inner loop, for the button of column \<open>col\<close> in row \<open>row\<close>. The rows,
  the cells and the table element carry roles only and are left out, as are the calls
  that make the canvas.
\<close>

definition addButton :: "int \<Rightarrow> int \<Rightarrow> board \<Rightarrow> result" where
  "addButton row col s =
     (let y = row; x = col;
          button = Button (length (buttons s));
          s1 = (if row = 0 \<and> col = 0
                then (setAttribute s button ''tabindex'' ''0'')\<lparr>currentTabableBtn := Some button\<rparr>
                else setAttribute s button ''tabindex'' ''-1'');
          s2 = s1\<lparr>additionalButtonData := (additionalButtonData s1)(button \<mapsto> (x, y, defaultCell))\<rparr>
      in andThen (updateButton s2 (Some button) defaultCell x y)
           (\<lambda>s3. Ok (s3\<lparr>buttons := buttons s3 @ [button]\<rparr>)))"

definition createTable :: "board \<Rightarrow> int \<Rightarrow> int \<Rightarrow> result" where
  "createTable s w h =
     forEach (\<lambda>row. forEach (\<lambda>col. addButton (int row) (int col)) [0..<nat w]) [0..<nat h] s"

text \<open>
  The component before \<^verbatim>\<open>componentDidMount\<close>: no buttons, an empty side table, no
  tabable button; \<open>a\<close> is the element of the page that has the focus then. Mounting
  calls \<^verbatim>\<open>_createTable\<close> with the two properties.
\<close>

definition newBoard :: "int \<Rightarrow> int \<Rightarrow> bool \<Rightarrow> bool \<Rightarrow> element option \<Rightarrow> board" where
  "newBoard w h fp cfm a =
     \<lparr>width = w, height = h, isFeaturePhone = fp, cellFocusMode = cfm, buttons = [],
      additionalButtonData = Map.empty, currentTabableBtn = None,
      attrs = (\<lambda>e. Map.empty), activeElement = a, effects = []\<rparr>"

definition componentDidMount :: "board \<Rightarrow> result" where
  "componentDidMount s = createTable s (width s) (height s)"

subsection \<open>\<^verbatim>\<open>setFocus\<close>\<close>

definition setFocus :: "board \<Rightarrow> element option \<Rightarrow> result" where
  "setFocus s newFocusBtn =
     (case currentTabableBtn s of
        None \<Rightarrow> Throw TypeError s
      | Some cur \<Rightarrow>
          (let s1 = setAttribute s cur ''tabIndex'' ''-1'' in
           case newFocusBtn of
             None \<Rightarrow> Throw TypeError s1
           | Some b \<Rightarrow>
               (let s2 = setAttribute s1 b ''tabIndex'' ''0'';
                    s3 = s2\<lparr>currentTabableBtn := Some b\<rparr>;
                    s4 = elementFocus s3 b
                in setFocusVisual s4 b)))"

subsection \<open>\<^verbatim>\<open>moveFocusWithMouse\<close>\<close>

definition moveFocusWithMouse :: "board \<Rightarrow> element \<Rightarrow> result" where
  "moveFocusWithMouse s targetBtn =
     (if additionalButtonData s targetBtn = None then Ok (removeFocusVisual s)
      else
        (let s1 = (case activeElement s of
                     None \<Rightarrow> s
                   | Some activeBtn \<Rightarrow>
                       if additionalButtonData s activeBtn \<noteq> None \<and> activeBtn \<noteq> targetBtn
                       then elementBlur s activeBtn else s)
         in setFocus s1 (Some targetBtn)))"

subsection \<open>\<^verbatim>\<open>moveFocusByKey\<close>\<close>

definition moveFrom :: "board \<Rightarrow> buttonData \<Rightarrow> int \<Rightarrow> int \<Rightarrow> result" where
  "moveFrom s btnInfo h v =
     (case btnInfo of (x, y, c) \<Rightarrow>
        (let newX = x + h; newY = y + v in
         if newX < 0 \<or> newX \<ge> width s \<or> (newY < 0 \<or> newY \<ge> height s) then Ok s
         else setFocus s (arrayGet (buttons s) (newX + newY * width s))))"

definition moveFocusByKey :: "board \<Rightarrow> int \<Rightarrow> int \<Rightarrow> result" where
  "moveFocusByKey s h v =
     (let s0 = logEffect StopPropagation s in
      case dataOf s0 (activeElement s0) of
        Some btnInfo \<Rightarrow> moveFrom s0 btnInfo h v
      | None \<Rightarrow>
          (case currentTabableBtn s0 of
             None \<Rightarrow> Throw TypeError s0
           | Some cur \<Rightarrow>
               (let s1 = elementFocus s0 cur in
                case additionalButtonData s1 cur of
                  None \<Rightarrow> Throw TypeError s1
                | Some btnInfo \<Rightarrow> moveFrom s1 btnInfo h v)))"

subsection \<open>Clicks and keys\<close>

definition simulateClick :: "board \<Rightarrow> element \<Rightarrow> bool \<Rightarrow> board" where
  "simulateClick s button alt = logEffect (OnCellClick (additionalButtonData s button) alt) s"

definition onKeyUp :: "board \<Rightarrow> string \<Rightarrow> result" where
  "onKeyUp s key =
     (if (isFeaturePhone s \<or> cellFocusMode s) \<and>
         (key = ''9'' \<or> key = ''7'' \<or> key = ''5'' \<or> key = ''0'')
      then moveFocusByKey s 0 0 else Ok s)"

definition onKeyUpOnTable :: "board \<Rightarrow> string \<Rightarrow> result" where
  "onKeyUpOnTable s key = (if key = ''Tab'' then moveFocusByKey s 0 0 else Ok s)"

definition onKeyDownOnTable :: "board \<Rightarrow> string \<Rightarrow> result" where
  "onKeyDownOnTable s key =
     (if key = ''Enter'' \<or> key = ''8'' then
        (case activeElement s of
           None \<Rightarrow> Ok s
         | Some button \<Rightarrow> Ok (simulateClick (logEffect PreventDefault s) button False))
      else if key = ''ArrowRight'' \<or> key = ''9'' then moveFocusByKey s 1 0
      else if key = ''ArrowLeft'' \<or> key = ''7'' then moveFocusByKey s (- 1) 0
      else if key = ''ArrowUp'' \<or> key = ''5'' then moveFocusByKey s 0 (- 1)
      else if key = ''ArrowDown'' \<or> key = ''0'' then moveFocusByKey s 0 1
      else Ok s)"

text \<open>\<open>target\<close> is \<^verbatim>\<open>event.target\<close>, \<open>btn\<close> is \<^verbatim>\<open>event.button\<close>.\<close>

definition onMouseUp :: "board \<Rightarrow> element \<Rightarrow> int \<Rightarrow> result" where
  "onMouseUp s target btn =
     (case additionalButtonData s target of
        None \<Rightarrow> Ok s
      | Some targetButtonData \<Rightarrow>
          (let s1 = logEffect PreventDefault s;
               click = (\<lambda>s' targetButton.
                          if btn \<noteq> 2 then Ok (simulateClick s' targetButton False)
                          else Ok (simulateClick s' targetButton True))
           in if isFeaturePhone s1 \<or> cellFocusMode s1 then
                (case activeElement s1 of
                   None \<Rightarrow> andThen (setFocus s1 (Some target)) (\<lambda>s2. click s2 target)
                 | Some activeButton \<Rightarrow>
                     if additionalButtonData s1 activeButton = None
                     then andThen (setFocus s1 (Some target)) (\<lambda>s2. click s2 target)
                     else click s1 activeButton)
              else click s1 target))"

definition onMouseDown :: "board \<Rightarrow> board" where
  "onMouseDown s = logEffect PreventDefault s"

text \<open>
  The mouse-move listener is registered in \<^verbatim>\<open>_createTable\<close> only under the feature
  flags, so a mouse move over the table reaches \<^verbatim>\<open>moveFocusWithMouse\<close> only then.
\<close>

definition onMouseMove :: "board \<Rightarrow> element \<Rightarrow> result" where
  "onMouseMove s target =
     (if isFeaturePhone s \<or> cellFocusMode s then moveFocusWithMouse s target else Ok s)"


section \<open>Invariants\<close>

text \<open>
  The number of grid elements, the keyboard-reachability mark of an element, and the
  invariant of a mounted board: the \<open>i\<close>-th button of the array is \<open>Button i\<close>, the
  side table gives it the coordinate \<open>(i mod width, i div width)\<close> and knows no other
  element, and the tabable button is the one button marked \<open>0\<close>, all others are
  marked \<open>-1\<close>. \<open>built w k\<close> is the state of the construction loop after \<open>k\<close> buttons.
\<close>

definition gridSize :: "board \<Rightarrow> nat" where
  "gridSize s = nat (width s * height s)"

definition tabindexOf :: "board \<Rightarrow> element \<Rightarrow> string option" where
  "tabindexOf s e = getAttribute s e ''tabindex''"

definition boardInv :: "board \<Rightarrow> bool" where
  "boardInv s \<longleftrightarrow>
     0 < width s \<and> 0 < height s \<and>
     buttons s = map Button [0..<gridSize s] \<and>
     (\<forall>i<gridSize s. \<exists>c. additionalButtonData s (Button i) =
          Some (int i mod width s, int i div width s, c)) \<and>
     (\<forall>e. e \<notin> set (buttons s) \<longrightarrow> additionalButtonData s e = None) \<and>
     (\<exists>k<gridSize s. currentTabableBtn s = Some (Button k) \<and>
          (\<forall>i<gridSize s. tabindexOf s (Button i) = Some (if i = k then ''0'' else ''-1'')))"

definition built :: "nat \<Rightarrow> nat \<Rightarrow> board \<Rightarrow> bool" where
  "built w k s \<longleftrightarrow>
     buttons s = map Button [0..<k] \<and>
     (\<forall>i<k. additionalButtonData s (Button i) = Some (int (i mod w), int (i div w), defaultCell)) \<and>
     (\<forall>e. e \<notin> set (buttons s) \<longrightarrow> additionalButtonData s e = None) \<and>
     (\<forall>i<k. tabindexOf s (Button i) = Some (if i = 0 then ''0'' else ''-1'')) \<and>
     (\<forall>i<k. getAttribute s (Button i) ''aria-label'' = Some ''hidden'') \<and>
     (0 < k \<longrightarrow> currentTabableBtn s = Some (Button 0))"

text \<open>
  The renderer calls made by the blur listener when the focus moves to \<open>b\<close>, and the
  state after \<^verbatim>\<open>setFocus\<close> has moved the focus from the tabable button \<open>cur\<close> to a
  button \<open>b\<close> of coordinate \<open>(x, y)\<close>.
\<close>

definition blurCalls :: "board \<Rightarrow> element \<Rightarrow> effect list" where
  "blurCalls s b =
     (case activeElement s of
        None \<Rightarrow> []
      | Some a \<Rightarrow> if a \<noteq> b \<and> additionalButtonData s a \<noteq> None
                  then [RendererSetFocus (- 1) (- 1)] else [])"

definition focused :: "board \<Rightarrow> element \<Rightarrow> element \<Rightarrow> int \<Rightarrow> int \<Rightarrow> board" where
  "focused s cur b x y =
     s\<lparr>attrs := (let a1 = (attrs s)(cur := (attrs s cur)(''tabindex'' \<mapsto> ''-1''))
                in a1(b := (a1 b)(''tabindex'' \<mapsto> ''0''))),
       currentTabableBtn := Some b,
       activeElement := Some b,
       effects := effects s @ [SetAttribute cur ''tabindex'' ''-1'', SetAttribute b ''tabindex'' ''0'']
                    @ blurCalls s b @ [RendererSetFocus x y]\<rparr>"

text \<open>
  The visual focus indicator is what the renderer was last told: the arguments of the
  last \<^verbatim>\<open>renderer.setFocus\<close> call, if there was one (\<open>(-1, -1)\<close> clears it).
\<close>

definition lastFocusCall :: "(int \<times> int) option \<Rightarrow> effect \<Rightarrow> (int \<times> int) option" where
  "lastFocusCall acc e = (case e of RendererSetFocus x y \<Rightarrow> Some (x, y) | _ \<Rightarrow> acc)"

definition visualFocus :: "board \<Rightarrow> (int \<times> int) option" where
  "visualFocus s = foldl lastFocusCall None (effects s)"

text \<open>
  The focus position that \<^verbatim>\<open>moveFocusByKey\<close> starts from: the side-table entry of the
  active element and, when the active element has none, that of the tabable button.
  \<open>resolved s\<close> is the state at the bounds check: the event's propagation is stopped
  and, in the second case, the tabable button has been given the focus.
\<close>

definition focusData :: "board \<Rightarrow> buttonData option" where
  "focusData s =
     (case dataOf s (activeElement s) of
        Some d \<Rightarrow> Some d
      | None \<Rightarrow> dataOf s (currentTabableBtn s))"

definition focusPosition :: "board \<Rightarrow> (int \<times> int) option" where
  "focusPosition s = (case focusData s of None \<Rightarrow> None | Some (x, y, c) \<Rightarrow> Some (x, y))"

definition resolved :: "board \<Rightarrow> board" where
  "resolved s =
     (case dataOf s (activeElement s) of
        Some d \<Rightarrow> logEffect StopPropagation s
      | None \<Rightarrow> (logEffect StopPropagation s)\<lparr>activeElement := currentTabableBtn s\<rparr>)"

definition inGrid :: "board \<Rightarrow> int \<Rightarrow> int \<Rightarrow> bool" where
  "inGrid s x y \<longleftrightarrow> 0 \<le> x \<and> x < width s \<and> 0 \<le> y \<and> y < height s"

text \<open>A board right after mounting, on a page whose body has the focus.\<close>

definition mounted :: "int \<Rightarrow> int \<Rightarrow> bool \<Rightarrow> bool \<Rightarrow> board" where
  "mounted w h fp cfm = stateOf (componentDidMount (newBoard w h fp cfm (Some Body)))"

section \<open>Events and reachable states\<close>

text \<open>
  The listeners that \<^verbatim>\<open>componentDidMount\<close> and \<^verbatim>\<open>_createTable\<close> register, the
  subscription to the game, and what the user does to the focus without the component
  (tabbing or clicking to another element, leaving the page): every one is an event,
  and a state is reachable when mounting followed by events leads to it. A handler
  that throws leaves the state of the throw behind.
\<close>

datatype event =
    KeyDownOnTable string
  | KeyUpOnTable string
  | KeyUpOnWindow string
  | MouseUp element int
  | MouseDown
  | MouseMove element
  | ContextMenu
  | GameChange stateChange
  | UserFocus element
  | UserBlur

definition handleEvent :: "board \<Rightarrow> event \<Rightarrow> result" where
  "handleEvent s ev =
     (case ev of
        KeyDownOnTable key \<Rightarrow> onKeyDownOnTable s key
      | KeyUpOnTable key \<Rightarrow> onKeyUpOnTable s key
      | KeyUpOnWindow key \<Rightarrow> onKeyUp s key
      | MouseUp target btn \<Rightarrow> onMouseUp s target btn
      | MouseDown \<Rightarrow> Ok (onMouseDown s)
      | MouseMove target \<Rightarrow> onMouseMove s target
      | ContextMenu \<Rightarrow> Ok (logEffect PreventDefault s)
      | GameChange sc \<Rightarrow> doManualDomHandling s sc
      | UserFocus e \<Rightarrow> Ok (elementFocus s e)
      | UserBlur \<Rightarrow> Ok (case activeElement s of None \<Rightarrow> s | Some a \<Rightarrow> elementBlur s a))"

inductive reachable :: "board \<Rightarrow> bool" where
  mount: "0 < w \<Longrightarrow> 0 < h \<Longrightarrow> reachable (stateOf (componentDidMount (newBoard w h fp cfm a)))"
| step: "reachable s \<Longrightarrow> reachable (stateOf (handleEvent s ev))"

text \<open>
  The grid elements marked keyboard-reachable and keyboard-unreachable, and the roving
  tabindex property: one element is marked \<open>0\<close>, it is the tabable button, and every
  other element of the grid is marked \<open>-1\<close>.
\<close>

definition keyboardReachable :: "board \<Rightarrow> element list" where
  "keyboardReachable s = filter (\<lambda>b. tabindexOf s b = Some ''0'') (buttons s)"

definition keyboardUnreachable :: "board \<Rightarrow> element list" where
  "keyboardUnreachable s = filter (\<lambda>b. tabindexOf s b = Some ''-1'') (buttons s)"

definition exactlyOneTabable :: "board \<Rightarrow> bool" where
  "exactlyOneTabable s \<longleftrightarrow>
     distinct (buttons s) \<and>
     (case keyboardReachable s of
        [b] \<Rightarrow> currentTabableBtn s = Some b \<and> keyboardUnreachable s = removeAll b (buttons s)
      | _ \<Rightarrow> False)"

text \<open>
  The state after \<^verbatim>\<open>_updateButton\<close> has labelled a button \<open>b\<close> of the side table, whose
  entry has the coordinate \<open>(bx, by)\<close>, for the cell \<open>c\<close>.
\<close>

definition updated :: "board \<Rightarrow> element \<Rightarrow> int \<Rightarrow> int \<Rightarrow> cell \<Rightarrow> board" where
  "updated s b bx by c =
     s\<lparr>attrs := (attrs s)(b := (attrs s b)(''aria-label'' \<mapsto> cellState c)),
       additionalButtonData := (additionalButtonData s)(b \<mapsto> (bx, by, c)),
       effects := effects s @ [SetAttribute b ''aria-label'' (cellState c)]\<rparr>"

text \<open>
  The state in which \<^verbatim>\<open>moveFocusWithMouse\<close> calls \<^verbatim>\<open>setFocus\<close>: a grid element
  other than the target that has the focus has been blurred.
\<close>

definition unfocusOther :: "board \<Rightarrow> element \<Rightarrow> board" where
  "unfocusOther s target =
     (case activeElement s of
        None \<Rightarrow> s
      | Some a \<Rightarrow> if additionalButtonData s a \<noteq> None \<and> a \<noteq> target
                  then elementBlur s a else s)"

text \<open>
  The feature-flag test of the source, \<^verbatim>\<open>isFeaturePhone || cellFocusMode\<close>, and the
  calls of the activation callback (argument and alternate flag), oldest first.
\<close>

definition constrainedInput :: "board \<Rightarrow> bool" where
  "constrainedInput s \<longleftrightarrow> isFeaturePhone s \<or> cellFocusMode s"

fun clickOf :: "effect \<Rightarrow> (buttonData option \<times> bool) list" where
  "clickOf (OnCellClick d alt) = [(d, alt)]"
| "clickOf (SetAttribute e n v) = []"
| "clickOf (RendererSetFocus x y) = []"
| "clickOf (AnimatorUpdateCells gc) = []"
| "clickOf PreventDefault = []"
| "clickOf StopPropagation = []"

definition clicks :: "board \<Rightarrow> (buttonData option \<times> bool) list" where
  "clicks s = concat (map clickOf (effects s))"

section \<open>The description of a cell, as the specification words it\<close>

text \<open>
  A string is the decimal string of an integer when it is a non-empty run of digits
  without a superfluous leading zero, after a minus sign for a negative integer, whose
  value read in base ten is the magnitude of the integer.
\<close>

definition isDigit :: "char \<Rightarrow> bool" where
  "isDigit ch \<longleftrightarrow> 48 \<le> (of_char ch :: nat) \<and> (of_char ch :: nat) \<le> 57"

definition decimalValue :: "string \<Rightarrow> nat" where
  "decimalValue str = foldl (\<lambda>acc ch. 10 * acc + (of_char ch - 48)) 0 str"

definition decimalDigits :: "string \<Rightarrow> nat \<Rightarrow> bool" where
  "decimalDigits str n \<longleftrightarrow>
     str \<noteq> [] \<and> list_all isDigit str \<and> (hd str = CHR ''0'' \<longrightarrow> str = ''0'') \<and>
     decimalValue str = n"

definition decimalString :: "string \<Rightarrow> int \<Rightarrow> bool" where
  "decimalString str n \<longleftrightarrow>
     (if n < 0 then str \<noteq> [] \<and> hd str = CHR ''-'' \<and> decimalDigits (tl str) (nat (- n))
      else decimalDigits str (nat n))"

text \<open>
  The precedence table of the specification: not revealed gives \<open>flag\<close> when flagged
  and \<open>hidden\<close> otherwise; revealed with a mine gives \<open>black hole\<close>; revealed, no mine
  and no touching mine gives \<open>blank\<close>; otherwise the decimal string of \<open>touchingMines\<close>.
\<close>

definition specDescription :: "cell \<Rightarrow> string \<Rightarrow> bool" where
  "specDescription c d \<longleftrightarrow>
     (if \<not> revealed c then (if flagged c then d = ''flag'' else d = ''hidden'')
      else if hasMine c then d = ''black hole''
      else if touchingMines c = 0 then d = ''blank''
      else decimalString d (touchingMines c))"

section \<open>Batches of grid changes\<close>

text \<open>
  A batch is in the grid when every change of it has a coordinate of the grid.
  \<open>lastAt w gc i\<close> is the cell of the last change of the batch \<open>gc\<close> that addresses the
  array index \<open>i\<close> (\<open>y * w + x = i\<close>), \<open>labelWrite s d\<close> is the attribute write that the
  change \<open>d\<close> causes, and \<open>applied s gc\<close> is the state after the changes of a batch in
  the grid have been applied in order.
\<close>

definition allInGrid :: "board \<Rightarrow> gridChange list \<Rightarrow> bool" where
  "allInGrid s gc = list_all (\<lambda>(x, y, c). inGrid s x y) gc"

fun lastAt :: "int \<Rightarrow> gridChange list \<Rightarrow> int \<Rightarrow> cell option" where
  "lastAt w [] i = None"
| "lastAt w ((x, y, c) # rest) i =
     (case lastAt w rest i of
        Some c' \<Rightarrow> Some c'
      | None \<Rightarrow> if y * w + x = i then Some c else None)"

definition labelWrite :: "board \<Rightarrow> gridChange \<Rightarrow> effect" where
  "labelWrite s d =
     (case d of (x, y, c) \<Rightarrow>
        SetAttribute (buttons s ! nat (y * width s + x)) ''aria-label'' (cellState c))"

fun applied :: "board \<Rightarrow> gridChange list \<Rightarrow> board" where
  "applied s [] = s"
| "applied s ((x, y, c) # rest) =
     applied (updated s (Button (nat (y * width s + x))) x y c) rest"

section \<open>Construction\<close>

lemma lower_tabindex [simp]: "asciiLowercase ''tabindex'' = ''tabindex''"
  by code_simp

lemma lower_tabIndex [simp]: "asciiLowercase ''tabIndex'' = ''tabindex''"
  by code_simp

lemma lower_aria_label [simp]: "asciiLowercase ''aria-label'' = ''aria-label''"
  by code_simp

lemma cellState_default [simp]: "cellState defaultCell = ''hidden''"
  by (simp add: cellState_def defaultCell_def)

lemma addButton_built:
  assumes b: "built w k s" and w: "0 < w" and k: "k = r * w + c" and c: "c < w"
  shows "\<exists>s'. addButton (int r) (int c) s = Ok s' \<and> built w (Suc k) s' \<and>
           width s' = width s \<and> height s' = height s \<and> isFeaturePhone s' = isFeaturePhone s \<and>
           cellFocusMode s' = cellFocusMode s \<and> activeElement s' = activeElement s"
proof -
  have len: "length (buttons s) = k" using b by (simp add: built_def)
  have fresh: "Button k \<notin> set (buttons s)" using b by (auto simp: built_def)
  have md: "k mod w = c" "k div w = r" using k c w by simp_all
  have z: "(r = 0 \<and> c = 0) = (k = 0)" using k w by auto
  show ?thesis
    using b len md z
    apply (simp add: addButton_def updateButton_def setAttribute_def logEffect_def Let_def)
    apply (auto simp: built_def tabindexOf_def getAttribute_def less_Suc_eq)
    done
qed

lemma row_built:
  assumes w: "0 < w"
  shows "built w (r * w + c) s \<Longrightarrow> c \<le> w \<Longrightarrow>
         \<exists>s'. forEach (\<lambda>col. addButton (int r) (int col)) [c..<w] s = Ok s' \<and>
              built w (r * w + w) s' \<and>
              width s' = width s \<and> height s' = height s \<and> isFeaturePhone s' = isFeaturePhone s \<and>
              cellFocusMode s' = cellFocusMode s \<and> activeElement s' = activeElement s"
proof (induction "w - c" arbitrary: c s)
  case 0
  then show ?case by simp
next
  case (Suc n)
  then have c: "c < w" by simp
  from addButton_built [OF Suc.prems(1) w refl c]
  obtain s1 where s1: "addButton (int r) (int c) s = Ok s1" "built w (r * w + Suc c) s1"
    "width s1 = width s" "height s1 = height s" "isFeaturePhone s1 = isFeaturePhone s"
    "cellFocusMode s1 = cellFocusMode s" "activeElement s1 = activeElement s"
    by auto
  have "n = w - Suc c" using Suc.hyps(2) by simp
  from Suc.hyps(1) [OF this s1(2)] c
  obtain s' where s': "forEach (\<lambda>col. addButton (int r) (int col)) [Suc c..<w] s1 = Ok s'"
    "built w (r * w + w) s'"
    "width s' = width s1" "height s' = height s1" "isFeaturePhone s' = isFeaturePhone s1"
    "cellFocusMode s' = cellFocusMode s1" "activeElement s' = activeElement s1"
    by auto
  show ?case using c s1 s' by (simp add: upt_conv_Cons)
qed

lemma rows_built:
  assumes w: "0 < w"
  shows "built w (r * w) s \<Longrightarrow> r \<le> h \<Longrightarrow>
         \<exists>s'. forEach (\<lambda>row. forEach (\<lambda>col. addButton (int row) (int col)) [0..<w]) [r..<h] s = Ok s' \<and>
              built w (h * w) s' \<and>
              width s' = width s \<and> height s' = height s \<and> isFeaturePhone s' = isFeaturePhone s \<and>
              cellFocusMode s' = cellFocusMode s \<and> activeElement s' = activeElement s"
proof (induction "h - r" arbitrary: r s)
  case 0
  then show ?case by simp
next
  case (Suc n)
  then have r: "r < h" by simp
  from Suc.prems(1) have "built w (r * w + 0) s" by simp
  from row_built [OF w this]
  obtain s1 where s1: "forEach (\<lambda>col. addButton (int r) (int col)) [0..<w] s = Ok s1"
    "built w (Suc r * w) s1"
    "width s1 = width s" "height s1 = height s" "isFeaturePhone s1 = isFeaturePhone s"
    "cellFocusMode s1 = cellFocusMode s" "activeElement s1 = activeElement s"
    by (auto simp: add.commute)
  have "n = h - Suc r" using Suc.hyps(2) by simp
  from Suc.hyps(1) [OF this s1(2)] r
  obtain s' where s': "forEach (\<lambda>row. forEach (\<lambda>col. addButton (int row) (int col)) [0..<w]) [Suc r..<h] s1 = Ok s'"
    "built w (h * w) s'"
    "width s' = width s1" "height s' = height s1" "isFeaturePhone s' = isFeaturePhone s1"
    "cellFocusMode s' = cellFocusMode s1" "activeElement s' = activeElement s1"
    by auto
  show ?case using r s1 s' by (simp add: upt_conv_Cons)
qed

lemma built_newBoard: "built w 0 (newBoard w' h fp cfm a)"
  by (simp add: built_def newBoard_def)

lemma mount_built:
  assumes w: "0 < w" and h: "0 < h"
  shows "\<exists>s. componentDidMount (newBoard w h fp cfm a) = Ok s \<and>
              built (nat w) (nat h * nat w) s \<and>
              width s = w \<and> height s = h \<and> isFeaturePhone s = fp \<and>
              cellFocusMode s = cfm \<and> activeElement s = a"
proof -
  have w': "0 < nat w" using w by simp
  have "built (nat w) (0 * nat w) (newBoard w h fp cfm a)"
    by (simp add: built_newBoard)
  from rows_built [OF w' this, of "nat h"]
  show ?thesis by (simp add: componentDidMount_def createTable_def newBoard_def)
qed

lemma built_boardInv:
  assumes b: "built (nat (width s)) (nat (height s) * nat (width s)) s"
    and w: "0 < width s" and h: "0 < height s"
  shows "boardInv s"
proof -
  have g: "gridSize s = nat (height s) * nat (width s)"
    using w h by (simp add: gridSize_def nat_mult_distrib mult.commute)
  have pos: "0 < gridSize s" using w h g by simp
  have m: "int (i mod nat (width s)) = int i mod width s"
          "int (i div nat (width s)) = int i div width s" for i
    using w by (simp_all add: zmod_int zdiv_int)
  show ?thesis
    unfolding boardInv_def
    using b w h pos
    by (simp add: built_def g [symmetric] m)
qed

section \<open>Focus\<close>

lemma elementFocus_eq:
  "elementFocus s e = s\<lparr>activeElement := Some e, effects := effects s @ blurCalls s e\<rparr>"
proof (cases "activeElement s")
  case None
  then show ?thesis by (simp add: elementFocus_def blurCalls_def)
next
  case (Some a)
  show ?thesis
  proof (cases "a = e")
    case True
    with Some have "s\<lparr>activeElement := Some e\<rparr> = s" by simp
    with Some True show ?thesis by (simp add: elementFocus_def blurCalls_def)
  next
    case False
    with Some show ?thesis
      by (simp add: elementFocus_def blurCalls_def dispatchBlur_def removeFocusVisual_def
          logEffect_def)
  qed
qed

lemma blurCalls_frame:
  assumes "activeElement s' = activeElement s"
    and "additionalButtonData s' = additionalButtonData s"
  shows "blurCalls s' b = blurCalls s b"
  using assms by (simp add: blurCalls_def split: option.splits)

lemma setFocus_focused:
  assumes cur: "currentTabableBtn s = Some cur" and d: "additionalButtonData s b = Some (x, y, c)"
  shows "setFocus s (Some b) = Ok (focused s cur b x y)"
proof -
  define s3 where "s3 = (setAttribute (setAttribute s cur ''tabIndex'' ''-1'') b ''tabIndex'' ''0'')
      \<lparr>currentTabableBtn := Some b\<rparr>"
  have bc: "blurCalls s3 b = blurCalls s b"
    by (rule blurCalls_frame) (simp_all add: s3_def setAttribute_def logEffect_def)
  have d3: "additionalButtonData (elementFocus s3 b) b = Some (x, y, c)"
    using d by (simp add: elementFocus_eq s3_def setAttribute_def logEffect_def)
  have "setFocus s (Some b) = setFocusVisual (elementFocus s3 b) b"
    using cur by (simp add: setFocus_def s3_def Let_def)
  also have "\<dots> = Ok (logEffect (RendererSetFocus x y) (elementFocus s3 b))"
    using d3 by (simp add: setFocusVisual_def)
  also have "logEffect (RendererSetFocus x y) (elementFocus s3 b) = focused s cur b x y"
    unfolding elementFocus_eq bc
    by (simp add: s3_def setAttribute_def logEffect_def focused_def Let_def)
  finally show ?thesis .
qed

lemma boardInv_button:
  assumes "boardInv s" and "i < gridSize s"
  shows "\<exists>c. additionalButtonData s (Button i) = Some (int i mod width s, int i div width s, c)"
  using assms by (simp add: boardInv_def)

lemma boardInv_data:
  assumes "boardInv s" and "additionalButtonData s e = Some (x, y, c)"
  shows "\<exists>i<gridSize s. e = Button i \<and> x = int i mod width s \<and> y = int i div width s"
proof -
  have "e \<notin> set (buttons s) \<longrightarrow> additionalButtonData s e = None"
    using assms(1) unfolding boardInv_def by blast
  with assms(2) have "e \<in> set (buttons s)" by auto
  moreover have "buttons s = map Button [0..<gridSize s]"
    using assms(1) by (simp add: boardInv_def)
  ultimately obtain i where i: "i < gridSize s" "e = Button i" by auto
  from boardInv_button [OF assms(1) i(1)] assms(2) i show ?thesis by auto
qed

lemma boardInv_tabable:
  assumes "boardInv s"
  shows "\<exists>k<gridSize s. currentTabableBtn s = Some (Button k)"
  using assms by (auto simp: boardInv_def)

lemma index_in_grid:
  assumes w: "0 < w" and x: "0 \<le> x" "x < w" and y: "0 \<le> y" "y < (h::int)"
  shows "0 \<le> x + y * w" and "x + y * w < w * h"
    and "(x + y * w) mod w = x" and "(x + y * w) div w = y"
proof -
  show "0 \<le> x + y * w" using w x y by simp
  have "(y + 1) * w \<le> h * w" using y w by (intro mult_right_mono) simp_all
  then show "x + y * w < w * h" using x by (simp add: algebra_simps)
  show "(x + y * w) mod w = x" using x by simp
  show "(x + y * w) div w = y" using x w by simp
qed

lemma boardInv_arrayGet:
  assumes inv: "boardInv s" and x: "0 \<le> x" "x < width s" and y: "0 \<le> y" "y < height s"
  shows "arrayGet (buttons s) (x + y * width s) = Some (Button (nat (x + y * width s)))"
    and "nat (x + y * width s) < gridSize s"
    and "\<exists>c. additionalButtonData s (Button (nat (x + y * width s))) = Some (x, y, c)"
proof -
  have w: "0 < width s" using inv by (simp add: boardInv_def)
  note ig = index_in_grid [OF w x y]
  show lt: "nat (x + y * width s) < gridSize s"
    using ig(1,2) by (simp add: gridSize_def)
  have len: "length (buttons s) = gridSize s" using inv by (simp add: boardInv_def)
  have nth: "buttons s ! nat (x + y * width s) = Button (nat (x + y * width s))"
    using inv lt by (simp add: boardInv_def)
  show "arrayGet (buttons s) (x + y * width s) = Some (Button (nat (x + y * width s)))"
    using ig(1) lt len nth by (simp add: arrayGet_def)
  from boardInv_button [OF inv lt] ig(1,3,4)
  show "\<exists>c. additionalButtonData s (Button (nat (x + y * width s))) = Some (x, y, c)"
    by simp
qed

lemma boardInv_focused:
  assumes inv: "boardInv s" and cur: "currentTabableBtn s = Some cur" and j: "j < gridSize s"
  shows "boardInv (focused s cur (Button j) x y)"
proof -
  from inv cur obtain k where k: "k < gridSize s" "cur = Button k"
    "\<forall>i<gridSize s. tabindexOf s (Button i) = Some (if i = k then ''0'' else ''-1'')"
    by (auto simp: boardInv_def)
  have g: "gridSize (focused s cur (Button j) x y) = gridSize s"
    by (simp add: gridSize_def focused_def)
  show ?thesis
    unfolding boardInv_def g
    using inv j k
    by (simp add: boardInv_def focused_def Let_def tabindexOf_def getAttribute_def)
qed

subsection \<open>\<^verbatim>\<open>setFocus\<close> in every case\<close>

lemma visualFocus_focused [simp]: "visualFocus (focused s cur b x y) = Some (x, y)"
  by (simp add: visualFocus_def focused_def lastFocusCall_def)

lemma focused_twice:
  "(focused (focused s cur b x y) b b x y)\<lparr>effects := effects (focused s cur b x y)\<rparr>
     = focused s cur b x y"
proof -
  let ?A = "attrs (focused s cur b x y)"
  have "?A b ''tabindex'' = Some ''0''" by (simp add: focused_def Let_def)
  then have "(?A b)(''tabindex'' \<mapsto> ''0'') = ?A b" by (rule map_upd_triv)
  then have "?A(b := ((?A b)(''tabindex'' \<mapsto> ''-1''))(''tabindex'' \<mapsto> ''0'')) = ?A" by simp
  then show ?thesis
    by (simp add: focused_def [of "focused s cur b x y"] Let_def) (simp add: focused_def)
qed

lemma setFocus_no_tabable:
  "currentTabableBtn s = None \<Longrightarrow> setFocus s t = Throw TypeError s"
  by (simp add: setFocus_def)

lemma setFocus_undefined:
  "currentTabableBtn s = Some cur \<Longrightarrow>
   setFocus s None = Throw TypeError (setAttribute s cur ''tabIndex'' ''-1'')"
  by (simp add: setFocus_def)

lemma setFocus_unregistered:
  assumes "currentTabableBtn s = Some cur" and "additionalButtonData s b = None"
  shows "setFocus s (Some b) = Throw TypeError
     (s\<lparr>attrs := (let a1 = (attrs s)(cur := (attrs s cur)(''tabindex'' \<mapsto> ''-1''))
                  in a1(b := (a1 b)(''tabindex'' \<mapsto> ''0''))),
        currentTabableBtn := Some b,
        activeElement := Some b,
        effects := effects s @ [SetAttribute cur ''tabindex'' ''-1'', SetAttribute b ''tabindex'' ''0'']
                    @ blurCalls s b\<rparr>)"
proof -
  define s3 where "s3 = (setAttribute (setAttribute s cur ''tabIndex'' ''-1'') b ''tabIndex'' ''0'')
      \<lparr>currentTabableBtn := Some b\<rparr>"
  have bc: "blurCalls s3 b = blurCalls s b"
    by (rule blurCalls_frame) (simp_all add: s3_def setAttribute_def logEffect_def)
  have d3: "additionalButtonData (elementFocus s3 b) b = None"
    using assms(2) by (simp add: elementFocus_eq s3_def setAttribute_def logEffect_def)
  have "setFocus s (Some b) = setFocusVisual (elementFocus s3 b) b"
    using assms(1) by (simp add: setFocus_def s3_def Let_def)
  also have "\<dots> = Throw TypeError (elementFocus s3 b)"
    using d3 by (simp add: setFocusVisual_def)
  finally show ?thesis
    unfolding elementFocus_eq bc
    by (simp add: s3_def setAttribute_def logEffect_def Let_def)
qed

subsection \<open>Idempotence\<close>

text \<open>
  Claim C9: \<^verbatim>\<open>setFocus\<close> is idempotent. For every target \<open>t\<close>, defined or not, a
  second call of \<^verbatim>\<open>setFocus(t)\<close> ends as the first one did (normally, or with the same
  throw) and leaves every part of the state as the first call left it: the tabable
  button, the attributes of every element (so every \<open>tabindex\<close> mark), the active
  element and the side table. Only the log of effects grows, and the visual focus
  indicator read from it is the same after both calls.
\<close>

theorem setFocus_idempotent:
  "isOk (setFocus (stateOf (setFocus s t)) t) = isOk (setFocus s t) \<and>
   (stateOf (setFocus (stateOf (setFocus s t)) t))\<lparr>effects := effects (stateOf (setFocus s t))\<rparr>
     = stateOf (setFocus s t) \<and>
   visualFocus (stateOf (setFocus (stateOf (setFocus s t)) t)) = visualFocus (stateOf (setFocus s t))"
proof (cases "currentTabableBtn s")
  case None
  then show ?thesis by (simp add: setFocus_no_tabable)
next
  case (Some cur)
  show ?thesis
  proof (cases t)
    case None
    let ?s1 = "setAttribute s cur ''tabIndex'' ''-1''"
    have c1: "currentTabableBtn ?s1 = Some cur"
      using Some by (simp add: setAttribute_def logEffect_def)
    show ?thesis
      unfolding None setFocus_undefined [OF Some] stateOf.simps setFocus_undefined [OF c1]
      by (simp add: setAttribute_def logEffect_def visualFocus_def lastFocusCall_def)
  next
    case b: (Some b)
    show ?thesis
    proof (cases "additionalButtonData s b")
      case None
      note r1 = setFocus_unregistered [OF Some None]
      let ?s' = "stateOf (setFocus s (Some b))"
      have c1: "currentTabableBtn ?s' = Some b" and d1: "additionalButtonData ?s' b = None"
        and a1: "activeElement ?s' = Some b"
        and t1: "attrs ?s' b ''tabindex'' = Some ''0''"
        using None by (simp_all add: r1 Let_def)
      have bc: "blurCalls ?s' b = []" using a1 by (simp add: blurCalls_def)
      have "(attrs ?s' b)(''tabindex'' \<mapsto> ''0'') = attrs ?s' b" using t1 by (rule map_upd_triv)
      then have at: "(attrs ?s')(b := ((attrs ?s' b)(''tabindex'' \<mapsto> ''-1''))(''tabindex'' \<mapsto> ''0'')) = attrs ?s'"
        by simp
      note r2 = setFocus_unregistered [OF c1 d1]
      have i: "isOk (setFocus ?s' (Some b)) = isOk (setFocus s (Some b))"
        by (simp add: r2) (simp add: r1)
      have e: "(stateOf (setFocus ?s' (Some b)))\<lparr>effects := effects ?s'\<rparr> = ?s'"
        unfolding r2 stateOf.simps using at c1 a1 by (simp add: Let_def)
      have v: "visualFocus (stateOf (setFocus ?s' (Some b))) = visualFocus ?s'"
        unfolding r2 stateOf.simps bc by (simp add: visualFocus_def lastFocusCall_def)
      from i e v show ?thesis unfolding b by blast
    next
      case (Some d)
      obtain x y c where d: "d = (x, y, c)" by (cases d)
      note r1 = setFocus_focused [OF \<open>currentTabableBtn s = Some cur\<close> Some [unfolded d]]
      have c1: "currentTabableBtn (focused s cur b x y) = Some b"
        and d1: "additionalButtonData (focused s cur b x y) b = Some (x, y, c)"
        using Some d by (simp_all add: focused_def)
      note r2 = setFocus_focused [OF c1 d1]
      show ?thesis
        unfolding b r1 stateOf.simps r2 isOk.simps by (simp add: focused_twice)
    qed
  qed
qed

theorem setFocus_idempotent_witness:
  "(let m = stateOf (componentDidMount (newBoard 3 3 False False (Some Body)));
        s1 = stateOf (setFocus m (Some (Button 4)));
        s2 = stateOf (setFocus s1 (Some (Button 4)))
    in isOk (setFocus m (Some (Button 4))) \<and> isOk (setFocus s1 (Some (Button 4))) \<and>
       s2\<lparr>effects := effects s1\<rparr> = s1 \<and>
       currentTabableBtn s2 = Some (Button 4) \<and> activeElement s2 = Some (Button 4) \<and>
       visualFocus s2 = Some (1, 1) \<and> visualFocus s1 = Some (1, 1))"
proof -
  let ?m = "stateOf (componentDidMount (newBoard 3 3 False False (Some Body)))"
  have ok: "isOk (setFocus ?m (Some (Button 4)))" by code_simp
  have c: "currentTabableBtn (stateOf (setFocus ?m (Some (Button 4)))) = Some (Button 4)"
    by code_simp
  have a: "activeElement (stateOf (setFocus ?m (Some (Button 4)))) = Some (Button 4)"
    by code_simp
  have v: "visualFocus (stateOf (setFocus ?m (Some (Button 4)))) = Some (1, 1)"
    by code_simp
  let ?s1 = "stateOf (setFocus ?m (Some (Button 4)))"
  let ?s2 = "stateOf (setFocus ?s1 (Some (Button 4)))"
  note idem = setFocus_idempotent [of ?m "Some (Button 4)"]
  from idem have e: "?s2\<lparr>effects := effects ?s1\<rparr> = ?s1" by blast
  have "currentTabableBtn ?s2 = currentTabableBtn (?s2\<lparr>effects := effects ?s1\<rparr>)" by simp
  with e c have c2: "currentTabableBtn ?s2 = Some (Button 4)" by simp
  have "activeElement ?s2 = activeElement (?s2\<lparr>effects := effects ?s1\<rparr>)" by simp
  with e a have a2: "activeElement ?s2 = Some (Button 4)" by simp
  from idem ok c2 a2 v e show ?thesis unfolding Let_def by simp
qed

subsection \<open>\<^verbatim>\<open>moveFocusByKey\<close>\<close>

lemma boardInv_frame_tabindex:
  assumes "boardInv s" and "width s' = width s" and "height s' = height s"
    and "buttons s' = buttons s" and "additionalButtonData s' = additionalButtonData s"
    and "currentTabableBtn s' = currentTabableBtn s"
    and "\<And>e. tabindexOf s' e = tabindexOf s e"
  shows "boardInv s'"
  using assms by (simp add: boardInv_def gridSize_def)

lemma boardInv_frame:
  assumes "boardInv s" and "width s' = width s" and "height s' = height s"
    and "buttons s' = buttons s" and "additionalButtonData s' = additionalButtonData s"
    and "currentTabableBtn s' = currentTabableBtn s" and "attrs s' = attrs s"
  shows "boardInv s'"
  using assms(1)
  by (rule boardInv_frame_tabindex) (simp_all add: assms tabindexOf_def getAttribute_def)

lemma boardInv_resolved: "boardInv s \<Longrightarrow> boardInv (resolved s)"
  by (erule boardInv_frame) (simp_all add: resolved_def logEffect_def split: option.splits)

lemma resolved_fields [simp]:
  "width (resolved s) = width s" "height (resolved s) = height s"
  "buttons (resolved s) = buttons s" "additionalButtonData (resolved s) = additionalButtonData s"
  "currentTabableBtn (resolved s) = currentTabableBtn s" "attrs (resolved s) = attrs s"
  "isFeaturePhone (resolved s) = isFeaturePhone s" "cellFocusMode (resolved s) = cellFocusMode s"
  "effects (resolved s) = effects s @ [StopPropagation]"
  by (simp_all add: resolved_def logEffect_def split: option.splits)

lemma resolved_active:
  "activeElement (resolved s) =
     (if dataOf s (activeElement s) = None then currentTabableBtn s else activeElement s)"
  by (simp add: resolved_def logEffect_def split: option.splits)

lemma focusData_resolved:
  "focusData (resolved s) = focusData s"
  by (simp add: focusData_def resolved_active dataOf_def split: option.splits)

lemma moveFocusByKey_resolved:
  assumes inv: "boardInv s" and fd: "focusData s = Some d"
  shows "moveFocusByKey s h v = moveFrom (resolved s) d h v"
proof (cases "dataOf s (activeElement s)")
  case (Some d')
  with fd have "d' = d" by (simp add: focusData_def)
  with Some show ?thesis
    by (simp add: moveFocusByKey_def Let_def resolved_def dataOf_def logEffect_def
        split: option.splits)
next
  case None
  from boardInv_tabable [OF inv] obtain k where k: "currentTabableBtn s = Some (Button k)"
    by blast
  from None fd k have dk: "additionalButtonData s (Button k) = Some d"
    by (simp add: focusData_def dataOf_def)
  let ?s0 = "logEffect StopPropagation s"
  have bc: "blurCalls ?s0 (Button k) = []"
    using None by (auto simp: blurCalls_def dataOf_def logEffect_def split: option.splits)
  have ef: "elementFocus ?s0 (Button k) = resolved s"
    unfolding elementFocus_eq bc using None k by (simp add: resolved_def logEffect_def)
  have "dataOf ?s0 (activeElement ?s0) = None"
    using None by (simp add: dataOf_def logEffect_def split: option.splits)
  moreover have "currentTabableBtn ?s0 = Some (Button k)" using k by (simp add: logEffect_def)
  ultimately show ?thesis
    using dk by (simp add: moveFocusByKey_def Let_def ef)
qed

lemma moveFrom_outside:
  "\<not> inGrid s (x + h) (y + v) \<Longrightarrow> moveFrom s (x, y, c) h v = Ok s"
  by (auto simp: moveFrom_def inGrid_def Let_def)

lemma moveFrom_inside:
  assumes inv: "boardInv s" and cur: "currentTabableBtn s = Some cur"
    and ig: "inGrid s (x + h) (y + v)"
  shows "moveFrom s (x, y, c) h v =
           Ok (focused s cur (Button (nat ((x + h) + (y + v) * width s))) (x + h) (y + v))"
proof -
  from ig have b: "0 \<le> x + h" "x + h < width s" "0 \<le> y + v" "y + v < height s"
    by (simp_all add: inGrid_def)
  note ag = boardInv_arrayGet [OF inv b]
  from ag(3) obtain c' where
    "additionalButtonData s (Button (nat ((x + h) + (y + v) * width s))) = Some (x + h, y + v, c')"
    by blast
  from setFocus_focused [OF cur this] b ag(1)
  show ?thesis by (simp add: moveFrom_def Let_def)
qed

lemma focusData_focused:
  assumes "additionalButtonData s b = Some d"
  shows "focusData (focused s cur b x y) = Some d"
  using assms by (simp add: focusData_def focused_def dataOf_def)

subsection \<open>The mounted board\<close>

lemma mounted_Ok:
  assumes "0 < w" and "0 < h"
  shows "componentDidMount (newBoard w h fp cfm (Some Body)) = Ok (mounted w h fp cfm)"
  using mount_built [OF assms, of fp cfm "Some Body"] by (auto simp: mounted_def)

lemma mounted_built:
  assumes "0 < w" and "0 < h"
  shows "built (nat w) (nat h * nat w) (mounted w h fp cfm)"
    and "width (mounted w h fp cfm) = w" and "height (mounted w h fp cfm) = h"
    and "isFeaturePhone (mounted w h fp cfm) = fp" and "cellFocusMode (mounted w h fp cfm) = cfm"
    and "activeElement (mounted w h fp cfm) = Some Body"
  using mount_built [OF assms, of fp cfm "Some Body"] by (auto simp: mounted_def)

lemma mounted_inv:
  assumes "0 < w" and "0 < h"
  shows "boardInv (mounted w h fp cfm)"
  using mounted_built [OF assms, of fp cfm] assms by (intro built_boardInv) simp_all

lemma mounted_tabable:
  assumes "0 < w" and "0 < h"
  shows "currentTabableBtn (mounted w h fp cfm) = Some (Button 0)"
  using mounted_built(1) [OF assms, of fp cfm] assms by (simp add: built_def)

lemma mounted_data:
  assumes "0 < w" and "0 < h" and "i < nat h * nat w"
  shows "additionalButtonData (mounted w h fp cfm) (Button i) =
           Some (int (i mod nat w), int (i div nat w), defaultCell)"
  using mounted_built(1) [OF assms(1,2), of fp cfm] assms(3) by (simp add: built_def)

lemma mounted_label:
  assumes "0 < w" and "0 < h" and "i < nat h * nat w"
  shows "getAttribute (mounted w h fp cfm) (Button i) ''aria-label'' = Some ''hidden''"
  using mounted_built(1) [OF assms(1,2), of fp cfm] assms(3) by (simp add: built_def)

lemma focusPosition_active:
  assumes "additionalButtonData s b = Some (x, y, c)"
  shows "focusPosition (s\<lparr>activeElement := Some b\<rparr>) = Some (x, y)"
  using assms by (simp add: focusPosition_def focusData_def dataOf_def)

lemma boardInv_active: "boardInv s \<Longrightarrow> boardInv (s\<lparr>activeElement := a\<rparr>)"
  by (erule boardInv_frame) simp_all

lemma focused_fields [simp]:
  "width (focused s cur b x y) = width s" "height (focused s cur b x y) = height s"
  "buttons (focused s cur b x y) = buttons s"
  "additionalButtonData (focused s cur b x y) = additionalButtonData s"
  "currentTabableBtn (focused s cur b x y) = Some b"
  "activeElement (focused s cur b x y) = Some b"
  "isFeaturePhone (focused s cur b x y) = isFeaturePhone s"
  "cellFocusMode (focused s cur b x y) = cellFocusMode s"
  by (simp_all add: focused_def)

lemma visualFocus_resolved [simp]: "visualFocus (resolved s) = visualFocus s"
  by (simp add: visualFocus_def lastFocusCall_def)

text \<open>
  Claim C3: moving the focus by an offset. The focus position \<open>(x, y)\<close> is the
  coordinate of the active grid element or, when no grid element is active, of the
  tabable button. When \<open>(x + dx, y + dy)\<close> is inside the grid, the element there becomes
  the tabable button and the active element, and the renderer is told its coordinate.
  When it is outside, nothing moves: the tabable button, every attribute and the visual
  indicator are unchanged, the focus position is still \<open>(x, y)\<close>, and the only effect
  is that the event's propagation is stopped (the active element is the one it was when
  that was a grid element, and the tabable button otherwise).
\<close>

theorem moveFocusByKey_in_or_out:
  assumes inv: "boardInv s" and pos: "focusPosition s = Some (x, y)"
  shows "(inGrid s (x + dx) (y + dy) \<longrightarrow>
            (\<exists>s'. moveFocusByKey s dx dy = Ok s' \<and>
                  currentTabableBtn s' = arrayGet (buttons s) ((x + dx) + (y + dy) * width s) \<and>
                  activeElement s' = currentTabableBtn s' \<and>
                  focusPosition s' = Some (x + dx, y + dy) \<and>
                  visualFocus s' = Some (x + dx, y + dy) \<and>
                  boardInv s')) \<and>
         (\<not> inGrid s (x + dx) (y + dy) \<longrightarrow>
            moveFocusByKey s dx dy = Ok (resolved s) \<and>
            focusPosition (resolved s) = Some (x, y) \<and>
            currentTabableBtn (resolved s) = currentTabableBtn s \<and>
            attrs (resolved s) = attrs s \<and>
            additionalButtonData (resolved s) = additionalButtonData s \<and>
            visualFocus (resolved s) = visualFocus s \<and>
            effects (resolved s) = effects s @ [StopPropagation] \<and>
            activeElement (resolved s) =
              (if dataOf s (activeElement s) = None then currentTabableBtn s else activeElement s))"
proof -
  from pos obtain c where fd: "focusData s = Some (x, y, c)"
    by (auto simp: focusPosition_def split: option.splits)
  note mv = moveFocusByKey_resolved [OF inv fd]
  have inG: "inGrid (resolved s) a b = inGrid s a b" for a b by (simp add: inGrid_def)
  show ?thesis
  proof (intro conjI impI)
    assume ig: "inGrid s (x + dx) (y + dy)"
    let ?j = "nat ((x + dx) + (y + dy) * width s)"
    from boardInv_tabable [OF inv] obtain k where k: "k < gridSize s"
      "currentTabableBtn s = Some (Button k)" by blast
    from ig have b: "0 \<le> x + dx" "x + dx < width s" "0 \<le> y + dy" "y + dy < height s"
      by (simp_all add: inGrid_def)
    note ag = boardInv_arrayGet [OF inv b]
    from ag(3) obtain c' where
      dj: "additionalButtonData s (Button ?j) = Some (x + dx, y + dy, c')" by blast
    let ?s' = "focused (resolved s) (Button k) (Button ?j) (x + dx) (y + dy)"
    have r: "moveFocusByKey s dx dy = Ok ?s'"
      using moveFrom_inside [OF boardInv_resolved [OF inv], of "Button k" x dx y dy c] k(2) ig
      by (simp add: mv inG)
    have "focusData ?s' = Some (x + dx, y + dy, c')"
      using dj by (intro focusData_focused) simp
    then have fp: "focusPosition ?s' = Some (x + dx, y + dy)" by (simp add: focusPosition_def)
    have bi: "boardInv ?s'"
      using boardInv_resolved [OF inv] k(2) ag(2)
      by (intro boardInv_focused) (simp_all add: gridSize_def)
    show "\<exists>s'. moveFocusByKey s dx dy = Ok s' \<and>
                  currentTabableBtn s' = arrayGet (buttons s) ((x + dx) + (y + dy) * width s) \<and>
                  activeElement s' = currentTabableBtn s' \<and>
                  focusPosition s' = Some (x + dx, y + dy) \<and>
                  visualFocus s' = Some (x + dx, y + dy) \<and>
                  boardInv s'"
      using r fp bi ag(1) by (intro exI [of _ ?s']) simp
  next
    assume "\<not> inGrid s (x + dx) (y + dy)"
    then show "moveFocusByKey s dx dy = Ok (resolved s)"
      by (simp add: mv moveFrom_outside inG)
  next
    show "focusPosition (resolved s) = Some (x, y)"
      using pos by (simp add: focusPosition_def focusData_resolved)
  qed (simp_all add: resolved_active)
qed

theorem moveFocusByKey_in_or_out_witness:
  "(let m = mounted 3 3 False False;
        nw = m\<lparr>activeElement := Some (Button 0)\<rparr>; ne = m\<lparr>activeElement := Some (Button 2)\<rparr>;
        sw = m\<lparr>activeElement := Some (Button 6)\<rparr>; se = m\<lparr>activeElement := Some (Button 8)\<rparr>
    in boardInv nw \<and> boardInv ne \<and> boardInv sw \<and> boardInv se \<and>
       focusPosition nw = Some (0, 0) \<and> focusPosition ne = Some (2, 0) \<and>
       focusPosition sw = Some (0, 2) \<and> focusPosition se = Some (2, 2) \<and>
       moveFocusByKey nw (- 1) 0 = Ok (resolved nw) \<and> moveFocusByKey nw 0 (- 1) = Ok (resolved nw) \<and>
       moveFocusByKey ne 1 0 = Ok (resolved ne) \<and> moveFocusByKey ne 0 (- 1) = Ok (resolved ne) \<and>
       moveFocusByKey sw (- 1) 0 = Ok (resolved sw) \<and> moveFocusByKey sw 0 1 = Ok (resolved sw) \<and>
       moveFocusByKey se 1 0 = Ok (resolved se) \<and> moveFocusByKey se 0 1 = Ok (resolved se) \<and>
       inGrid nw (0 + 1) (0 + 0) \<and>
       focusPosition (stateOf (moveFocusByKey nw 1 0)) = Some (1, 0) \<and>
       currentTabableBtn (stateOf (moveFocusByKey nw 1 0)) = Some (Button 1))"
proof -
  let ?m = "mounted 3 3 False False"
  have inv: "boardInv (?m\<lparr>activeElement := Some (Button k)\<rparr>)" for k
    by (rule boardInv_active) (simp add: mounted_inv)
  have pos: "k < 9 \<Longrightarrow>
      focusPosition (?m\<lparr>activeElement := Some (Button k)\<rparr>) = Some (int (k mod 3), int (k div 3))" for k
    by (rule focusPosition_active) (simp add: mounted_data)
  have wh: "width ?m = 3" "height ?m = 3" by (simp_all add: mounted_built)
  have bt: "buttons ?m = map Button [0..<9]"
    using mounted_built(1) [of 3 3 False False] by (simp add: built_def)
  have p0: "focusPosition (?m\<lparr>activeElement := Some (Button 0)\<rparr>) = Some (0, 0)"
    using pos [of 0] by simp
  have p2: "focusPosition (?m\<lparr>activeElement := Some (Button 2)\<rparr>) = Some (2, 0)"
    using pos [of 2] by simp
  have p6: "focusPosition (?m\<lparr>activeElement := Some (Button 6)\<rparr>) = Some (0, 2)"
    using pos [of 6] by simp
  have p8: "focusPosition (?m\<lparr>activeElement := Some (Button 8)\<rparr>) = Some (2, 2)"
    using pos [of 8] by simp
  have ag: "arrayGet (buttons ?m) 1 = Some (Button 1)"
    unfolding bt by (simp add: arrayGet_def)
  show ?thesis
    unfolding Let_def
    using inv [of 0] inv [of 2] inv [of 6] inv [of 8] p0 p2 p6 p8
      moveFocusByKey_in_or_out [OF inv [of 0] p0, of "- 1" 0]
      moveFocusByKey_in_or_out [OF inv [of 0] p0, of 0 "- 1"]
      moveFocusByKey_in_or_out [OF inv [of 2] p2, of 1 0]
      moveFocusByKey_in_or_out [OF inv [of 2] p2, of 0 "- 1"]
      moveFocusByKey_in_or_out [OF inv [of 6] p6, of "- 1" 0]
      moveFocusByKey_in_or_out [OF inv [of 6] p6, of 0 1]
      moveFocusByKey_in_or_out [OF inv [of 8] p8, of 1 0]
      moveFocusByKey_in_or_out [OF inv [of 8] p8, of 0 1]
      moveFocusByKey_in_or_out [OF inv [of 0] p0, of 1 0]
    by (auto simp: inGrid_def wh ag)
qed

section \<open>The invariant holds in every reachable state\<close>

lemma logEffect_fields [simp]:
  "width (logEffect e s) = width s" "height (logEffect e s) = height s"
  "buttons (logEffect e s) = buttons s"
  "additionalButtonData (logEffect e s) = additionalButtonData s"
  "currentTabableBtn (logEffect e s) = currentTabableBtn s"
  "attrs (logEffect e s) = attrs s" "activeElement (logEffect e s) = activeElement s"
  "isFeaturePhone (logEffect e s) = isFeaturePhone s"
  "cellFocusMode (logEffect e s) = cellFocusMode s"
  "effects (logEffect e s) = effects s @ [e]"
  by (simp_all add: logEffect_def)

lemma boardInv_logEffect: "boardInv s \<Longrightarrow> boardInv (logEffect e s)"
  by (erule boardInv_frame) simp_all

lemma boardInv_elementFocus: "boardInv s \<Longrightarrow> boardInv (elementFocus s e)"
  by (erule boardInv_frame) (simp_all add: elementFocus_eq)

lemma elementBlur_eq:
  "elementBlur s e =
     (if activeElement s = Some e
      then s\<lparr>activeElement := Some Body,
             effects := effects s @ (if additionalButtonData s e \<noteq> None
                                      then [RendererSetFocus (- 1) (- 1)] else [])\<rparr>
      else s)"
  by (simp add: elementBlur_def dispatchBlur_def removeFocusVisual_def logEffect_def)

lemma boardInv_elementBlur: "boardInv s \<Longrightarrow> boardInv (elementBlur s e)"
  by (erule boardInv_frame) (simp_all add: elementBlur_eq)

lemma boardInv_focusData:
  assumes "boardInv s"
  shows "\<exists>d. focusData s = Some d"
proof -
  from boardInv_tabable [OF assms] obtain k where k: "k < gridSize s"
    "currentTabableBtn s = Some (Button k)" by blast
  from boardInv_button [OF assms k(1)] k(2) show ?thesis
    by (auto simp: focusData_def dataOf_def split: option.splits)
qed

lemma moveFocusByKey_inv:
  assumes inv: "boardInv s"
  shows "\<exists>s'. moveFocusByKey s h v = Ok s' \<and> boardInv s'"
proof -
  from boardInv_focusData [OF inv] obtain x y c where fd: "focusData s = Some (x, y, c)"
    by (metis prod_cases3)
  note mv = moveFocusByKey_resolved [OF inv fd]
  note ri = boardInv_resolved [OF inv]
  from boardInv_tabable [OF inv] obtain k where k: "k < gridSize s"
    "currentTabableBtn s = Some (Button k)" by blast
  show ?thesis
  proof (cases "inGrid (resolved s) (x + h) (y + v)")
    case True
    then have b: "0 \<le> x + h" "x + h < width s" "0 \<le> y + v" "y + v < height s"
      by (simp_all add: inGrid_def)
    have "boardInv (focused (resolved s) (Button k) (Button (nat ((x + h) + (y + v) * width s)))
        (x + h) (y + v))"
      using ri k(2) boardInv_arrayGet(2) [OF inv b]
      by (intro boardInv_focused) (simp_all add: gridSize_def)
    with moveFrom_inside [OF ri _ True, of "Button k" c] k(2) show ?thesis
      by (simp add: mv)
  next
    case False
    with ri show ?thesis by (simp add: mv moveFrom_outside)
  qed
qed

lemma setFocus_inv:
  assumes inv: "boardInv s" and d: "additionalButtonData s b = Some (x, y, c)"
  shows "\<exists>cur. setFocus s (Some b) = Ok (focused s cur b x y) \<and>
               currentTabableBtn s = Some cur \<and> boardInv (focused s cur b x y)"
proof -
  from boardInv_tabable [OF inv] obtain k where k: "currentTabableBtn s = Some (Button k)"
    by blast
  from boardInv_data [OF inv d] obtain j where j: "j < gridSize s" "b = Button j" by blast
  from setFocus_focused [OF k d] boardInv_focused [OF inv k j(1)] k j(2)
  show ?thesis by simp
qed

subsection \<open>\<^verbatim>\<open>_updateButton\<close> and the loop over a batch\<close>

lemma updateButton_undefined: "updateButton s None c x y = Throw TypeError s"
  by (simp add: updateButton_def)

lemma updateButton_unregistered:
  "additionalButtonData s b = None \<Longrightarrow>
   updateButton s (Some b) c x y = Throw TypeError (setAttribute s b ''aria-label'' (cellState c))"
  by (simp add: updateButton_def setAttribute_def logEffect_def)

lemma updateButton_updated:
  "additionalButtonData s b = Some (bx, by, old) \<Longrightarrow>
   updateButton s (Some b) c x y = Ok (updated s b bx by c)"
  by (simp add: updateButton_def setAttribute_def logEffect_def updated_def)

lemma updated_fields [simp]:
  "width (updated s b bx by c) = width s" "height (updated s b bx by c) = height s"
  "buttons (updated s b bx by c) = buttons s"
  "currentTabableBtn (updated s b bx by c) = currentTabableBtn s"
  "activeElement (updated s b bx by c) = activeElement s"
  "isFeaturePhone (updated s b bx by c) = isFeaturePhone s"
  "cellFocusMode (updated s b bx by c) = cellFocusMode s"
  "effects (updated s b bx by c) = effects s @ [SetAttribute b ''aria-label'' (cellState c)]"
  "tabindexOf (updated s b bx by c) e = tabindexOf s e"
  "getAttribute (updated s b bx by c) e ''aria-label'' =
     (if e = b then Some (cellState c) else getAttribute s e ''aria-label'')"
  "additionalButtonData (updated s b bx by c) e =
     (if e = b then Some (bx, by, c) else additionalButtonData s e)"
  by (simp_all add: updated_def tabindexOf_def getAttribute_def)

lemma boardInv_updated:
  assumes inv: "boardInv s" and d: "additionalButtonData s b = Some (bx, by, old)"
  shows "boardInv (updated s b bx by c)"
proof -
  from boardInv_data [OF inv d] obtain i where i: "i < gridSize s" "b = Button i"
    "bx = int i mod width s" "by = int i div width s" by blast
  have g: "gridSize (updated s b bx by c) = gridSize s" by (simp add: gridSize_def)
  have nb: "e \<notin> set (buttons s) \<Longrightarrow> e \<noteq> b" for e
    using inv d by (auto simp: boardInv_def)
  show ?thesis
    unfolding boardInv_def g using inv i nb by (auto simp: boardInv_def)
qed

lemma boardInv_setAttribute_label:
  assumes "boardInv s"
  shows "boardInv (setAttribute s b ''aria-label'' v)"
  using assms
  by (rule boardInv_frame_tabindex)
     (simp_all add: setAttribute_def tabindexOf_def getAttribute_def)

lemma updateButton_inv:
  assumes "boardInv s"
  shows "boardInv (stateOf (updateButton s btn c x y))"
proof (cases btn)
  case None
  with assms show ?thesis by (simp add: updateButton_undefined)
next
  case (Some b)
  show ?thesis
  proof (cases "additionalButtonData s b")
    case None
    with Some assms show ?thesis
      by (simp add: updateButton_unregistered boardInv_setAttribute_label)
  next
    case d: (Some d)
    obtain bx "by" old where "d = (bx, by, old)" by (cases d)
    with d Some assms show ?thesis
      by (simp add: updateButton_updated boardInv_updated)
  qed
qed

lemma forEach_preserves:
  assumes step: "\<And>x s. P s \<Longrightarrow> P (stateOf (f x s))"
  shows "P s \<Longrightarrow> P (stateOf (forEach f xs s))"
proof (induction xs arbitrary: s)
  case Nil
  then show ?case by simp
next
  case (Cons x xs)
  from step [OF Cons.prems, of x] Cons.IH show ?case
    by (cases "f x s") simp_all
qed

lemma forEach_append:
  "forEach f (xs @ ys) s = andThen (forEach f xs s) (forEach f ys)"
proof (induction xs arbitrary: s)
  case Nil
  show ?case by simp
next
  case (Cons x xs)
  then show ?case by (cases "f x s") simp_all
qed

lemma doManualDomHandling_inv:
  assumes "boardInv s"
  shows "boardInv (stateOf (doManualDomHandling s sc))"
proof (cases "gridChanges sc")
  case None
  with assms show ?thesis by (simp add: doManualDomHandling_def)
next
  case (Some gc)
  have "boardInv (stateOf (forEach applyChange gc s))"
    using assms
    by (rule forEach_preserves [rotated]) (auto simp: applyChange_def updateButton_inv)
  then show ?thesis
    using Some
    by (cases "forEach applyChange gc s") (simp_all add: doManualDomHandling_def boardInv_logEffect)
qed

subsection \<open>Pointer handlers\<close>

lemma simulateClick_fields [simp]:
  "width (simulateClick s b alt) = width s" "height (simulateClick s b alt) = height s"
  "buttons (simulateClick s b alt) = buttons s"
  "additionalButtonData (simulateClick s b alt) = additionalButtonData s"
  "currentTabableBtn (simulateClick s b alt) = currentTabableBtn s"
  "attrs (simulateClick s b alt) = attrs s"
  "activeElement (simulateClick s b alt) = activeElement s"
  "effects (simulateClick s b alt) = effects s @ [OnCellClick (additionalButtonData s b) alt]"
  by (simp_all add: simulateClick_def)

lemma boardInv_simulateClick: "boardInv s \<Longrightarrow> boardInv (simulateClick s b alt)"
  by (erule boardInv_frame) simp_all

lemma onMouseUp_miss:
  "additionalButtonData s target = None \<Longrightarrow> onMouseUp s target btn = Ok s"
  by (simp add: onMouseUp_def)

lemma onMouseUp_plain:
  assumes "additionalButtonData s target = Some d"
    and "\<not> (isFeaturePhone s \<or> cellFocusMode s)"
  shows "onMouseUp s target btn = Ok (simulateClick (logEffect PreventDefault s) target (btn = 2))"
  using assms by (simp add: onMouseUp_def Let_def)

lemma onMouseUp_redirect:
  assumes "additionalButtonData s target = Some d"
    and "isFeaturePhone s \<or> cellFocusMode s"
    and "activeElement s = Some a" and "additionalButtonData s a = Some ad"
  shows "onMouseUp s target btn = Ok (simulateClick (logEffect PreventDefault s) a (btn = 2))"
  using assms by (simp add: onMouseUp_def Let_def)

lemma onMouseUp_focus:
  assumes d: "additionalButtonData s target = Some (tx, ty, tc)"
    and fl: "isFeaturePhone s \<or> cellFocusMode s"
    and na: "dataOf s (activeElement s) = None"
    and cur: "currentTabableBtn s = Some cur"
  shows "onMouseUp s target btn =
           Ok (simulateClick (focused (logEffect PreventDefault s) cur target tx ty) target (btn = 2))"
proof -
  let ?s1 = "logEffect PreventDefault s"
  have sf: "setFocus ?s1 (Some target) = Ok (focused ?s1 cur target tx ty)"
    using cur d by (intro setFocus_focused) simp_all
  show ?thesis
    using d fl na
    by (auto simp: onMouseUp_def Let_def sf dataOf_def split: option.splits)
qed

lemma onMouseUp_inv:
  assumes inv: "boardInv s"
  shows "\<exists>s'. onMouseUp s target btn = Ok s' \<and> boardInv s'"
proof (cases "additionalButtonData s target")
  case None
  with inv show ?thesis by (simp add: onMouseUp_miss)
next
  case (Some d)
  obtain tx ty tc where d: "d = (tx, ty, tc)" by (cases d)
  note li = boardInv_logEffect [OF inv, of PreventDefault]
  show ?thesis
  proof (cases "isFeaturePhone s \<or> cellFocusMode s")
    case False
    with Some li show ?thesis by (simp add: onMouseUp_plain boardInv_simulateClick)
  next
    case True
    show ?thesis
    proof (cases "dataOf s (activeElement s)")
      case None
      from boardInv_tabable [OF inv] obtain k where k: "currentTabableBtn s = Some (Button k)"
        by blast
      from boardInv_data [OF inv Some [unfolded d]] obtain j where j: "j < gridSize s"
        "target = Button j" by blast
      have "boardInv (focused (logEffect PreventDefault s) (Button k) (Button j) tx ty)"
        using li k j(1) by (intro boardInv_focused) (simp_all add: gridSize_def)
      with onMouseUp_focus [OF Some [unfolded d] True None k] j(2) show ?thesis
        by (simp add: boardInv_simulateClick)
    next
      case ad: (Some ad)
      then obtain a where a: "activeElement s = Some a" "additionalButtonData s a = Some ad"
        by (auto simp: dataOf_def split: option.splits)
      from onMouseUp_redirect [OF Some True a] li show ?thesis
        by (simp add: boardInv_simulateClick)
    qed
  qed
qed

lemma moveFocusWithMouse_miss:
  "additionalButtonData s target = None \<Longrightarrow> moveFocusWithMouse s target = Ok (removeFocusVisual s)"
  by (simp add: moveFocusWithMouse_def)

lemma unfocusOther_fields [simp]:
  "width (unfocusOther s t) = width s" "height (unfocusOther s t) = height s"
  "buttons (unfocusOther s t) = buttons s"
  "additionalButtonData (unfocusOther s t) = additionalButtonData s"
  "currentTabableBtn (unfocusOther s t) = currentTabableBtn s"
  "attrs (unfocusOther s t) = attrs s"
  "isFeaturePhone (unfocusOther s t) = isFeaturePhone s"
  "cellFocusMode (unfocusOther s t) = cellFocusMode s"
  by (simp_all add: unfocusOther_def elementBlur_eq split: option.splits)

lemma boardInv_unfocusOther: "boardInv s \<Longrightarrow> boardInv (unfocusOther s t)"
  by (erule boardInv_frame) simp_all

lemma moveFocusWithMouse_hit:
  assumes d: "additionalButtonData s target = Some (tx, ty, tc)"
    and cur: "currentTabableBtn s = Some cur"
  shows "moveFocusWithMouse s target = Ok (focused (unfocusOther s target) cur target tx ty)"
proof -
  have "currentTabableBtn (unfocusOther s target) = Some cur"
    "additionalButtonData (unfocusOther s target) target = Some (tx, ty, tc)"
    using d cur by simp_all
  from setFocus_focused [OF this] d show ?thesis
    by (simp add: moveFocusWithMouse_def unfocusOther_def)
qed

lemma onMouseMove_inv:
  assumes inv: "boardInv s"
  shows "\<exists>s'. onMouseMove s target = Ok s' \<and> boardInv s'"
proof (cases "isFeaturePhone s \<or> cellFocusMode s")
  case False
  with inv show ?thesis by (simp add: onMouseMove_def)
next
  case True
  show ?thesis
  proof (cases "additionalButtonData s target")
    case None
    with True inv show ?thesis
      by (simp add: onMouseMove_def moveFocusWithMouse_miss removeFocusVisual_def boardInv_logEffect)
  next
    case (Some d)
    obtain tx ty tc where d: "d = (tx, ty, tc)" by (cases d)
    from boardInv_tabable [OF inv] obtain k where k: "currentTabableBtn s = Some (Button k)"
      by blast
    from boardInv_data [OF inv Some [unfolded d]] obtain j where j: "j < gridSize s"
      "target = Button j" by blast
    have "boardInv (focused (unfocusOther s target) (Button k) (Button j) tx ty)"
      using boardInv_unfocusOther [OF inv] k j(1)
      by (intro boardInv_focused) (simp_all add: gridSize_def)
    with moveFocusWithMouse_hit [OF Some [unfolded d] k] True j(2) show ?thesis
      by (simp add: onMouseMove_def)
  qed
qed

subsection \<open>Key handlers\<close>

lemma onKeyDownOnTable_inv:
  assumes inv: "boardInv s"
  shows "\<exists>s'. onKeyDownOnTable s key = Ok s' \<and> boardInv s'"
proof -
  have "\<exists>s'. Ok (simulateClick (logEffect PreventDefault s) b False) = Ok s' \<and> boardInv s'" for b
    using inv by (simp add: boardInv_simulateClick boardInv_logEffect)
  with inv moveFocusByKey_inv [OF inv] show ?thesis
    unfolding onKeyDownOnTable_def by (simp split: option.splits)
qed

lemma onKeyUp_inv:
  assumes inv: "boardInv s"
  shows "\<exists>s'. onKeyUp s key = Ok s' \<and> boardInv s'"
  using inv moveFocusByKey_inv [OF inv] unfolding onKeyUp_def by simp

lemma onKeyUpOnTable_inv:
  assumes inv: "boardInv s"
  shows "\<exists>s'. onKeyUpOnTable s key = Ok s' \<and> boardInv s'"
  using inv moveFocusByKey_inv [OF inv] unfolding onKeyUpOnTable_def by simp

subsection \<open>Every event\<close>

lemma handleEvent_inv:
  assumes inv: "boardInv s"
  shows "boardInv (stateOf (handleEvent s ev))"
proof (cases ev)
  case (KeyDownOnTable key)
  with onKeyDownOnTable_inv [OF inv, of key] show ?thesis by (auto simp: handleEvent_def)
next
  case (KeyUpOnTable key)
  with onKeyUpOnTable_inv [OF inv, of key] show ?thesis by (auto simp: handleEvent_def)
next
  case (KeyUpOnWindow key)
  with onKeyUp_inv [OF inv, of key] show ?thesis by (auto simp: handleEvent_def)
next
  case (MouseUp target btn)
  with onMouseUp_inv [OF inv, of target btn] show ?thesis by (auto simp: handleEvent_def)
next
  case MouseDown
  with inv show ?thesis by (simp add: handleEvent_def onMouseDown_def boardInv_logEffect)
next
  case (MouseMove target)
  with onMouseMove_inv [OF inv, of target] show ?thesis by (auto simp: handleEvent_def)
next
  case ContextMenu
  with inv show ?thesis by (simp add: handleEvent_def boardInv_logEffect)
next
  case (GameChange sc)
  with doManualDomHandling_inv [OF inv, of sc] show ?thesis by (simp add: handleEvent_def)
next
  case (UserFocus e)
  with inv show ?thesis by (simp add: handleEvent_def boardInv_elementFocus)
next
  case UserBlur
  with inv show ?thesis
    by (simp add: handleEvent_def boardInv_elementBlur split: option.splits)
qed

lemma reachable_inv: "reachable s \<Longrightarrow> boardInv s"
proof (induction rule: reachable.induct)
  case (mount w h fp cfm a)
  from mount_built [OF mount, of fp cfm a] obtain s where
    s: "componentDidMount (newBoard w h fp cfm a) = Ok s"
    "built (nat w) (nat h * nat w) s" "width s = w" "height s = h" by blast
  with mount have "boardInv s" by (intro built_boardInv) simp_all
  with s(1) show ?case by simp
next
  case (step s ev)
  then show ?case by (simp add: handleEvent_inv)
qed

subsection \<open>The roving tabindex\<close>

lemma filter_eq_single:
  "distinct xs \<Longrightarrow> x \<in> set xs \<Longrightarrow> filter (\<lambda>e. e = x) xs = [x]"
proof (induction xs)
  case Nil
  then show ?case by simp
next
  case (Cons a xs)
  show ?case
  proof (cases "a = x")
    case True
    with Cons.prems have "filter (\<lambda>e. e = x) xs = []" by (auto simp: filter_empty_conv)
    with True show ?thesis by simp
  next
    case False
    with Cons show ?thesis by simp
  qed
qed

lemma boardInv_distinct: "boardInv s \<Longrightarrow> distinct (buttons s)"
  by (simp add: boardInv_def distinct_map inj_on_def)

lemma boardInv_marks:
  assumes inv: "boardInv s"
  shows "\<exists>k<gridSize s. currentTabableBtn s = Some (Button k) \<and>
           keyboardReachable s = [Button k] \<and>
           keyboardUnreachable s = removeAll (Button k) (buttons s)"
proof -
  from inv obtain k where k: "k < gridSize s" "currentTabableBtn s = Some (Button k)"
    and marks: "\<forall>i<gridSize s. tabindexOf s (Button i) = Some (if i = k then ''0'' else ''-1'')"
    by (auto simp: boardInv_def)
  have bt: "buttons s = map Button [0..<gridSize s]" using inv by (simp add: boardInv_def)
  have mem: "Button k \<in> set (buttons s)" using k(1) bt by simp
  have r: "(tabindexOf s e = Some ''0'') = (e = Button k)" if "e \<in> set (buttons s)" for e
    using that marks bt by (auto split: if_splits)
  have u: "(tabindexOf s e = Some ''-1'') = (Button k \<noteq> e)" if "e \<in> set (buttons s)" for e
    using that marks bt by (auto split: if_splits)
  have "keyboardReachable s = filter (\<lambda>e. e = Button k) (buttons s)"
    unfolding keyboardReachable_def by (rule filter_cong) (simp_all add: r)
  then have kr: "keyboardReachable s = [Button k]"
    using filter_eq_single [OF boardInv_distinct [OF inv] mem] by simp
  have "keyboardUnreachable s = filter (\<lambda>e. Button k \<noteq> e) (buttons s)"
    unfolding keyboardUnreachable_def by (rule filter_cong) (simp_all add: u)
  then have ku: "keyboardUnreachable s = removeAll (Button k) (buttons s)"
    by (simp add: removeAll_filter_not_eq)
  from k kr ku show ?thesis by blast
qed

lemma boardInv_exactlyOne: "boardInv s \<Longrightarrow> exactlyOneTabable s"
  using boardInv_marks [of s] boardInv_distinct [of s] by (auto simp: exactlyOneTabable_def)

text \<open>
  Claim C4: the roving tabindex. In every state reachable from mounting a grid of
  positive width and height by any sequence of events (throwing handlers included),
  the grid elements are distinct, exactly one of them is marked \<open>tabindex = 0\<close>, it is
  the tabable button, and all the others are marked \<open>tabindex = -1\<close>. After mounting,
  the marked element is the first button, of coordinate \<open>(0, 0)\<close>. A call of
  \<^verbatim>\<open>setFocus\<close> on a grid element \<open>t\<close> in a reachable state returns normally and
  leaves \<open>t\<close> as the one marked element.
\<close>

theorem roving_tabindex:
  "(reachable s \<longrightarrow> exactlyOneTabable s) \<and>
   (0 < w \<and> 0 < h \<longrightarrow>
      (\<exists>s0. componentDidMount (newBoard w h fp cfm a) = Ok s0 \<and>
            keyboardReachable s0 = [Button 0] \<and>
            keyboardUnreachable s0 = removeAll (Button 0) (buttons s0) \<and>
            additionalButtonData s0 (Button 0) = Some (0, 0, defaultCell))) \<and>
   (reachable s \<and> additionalButtonData s t \<noteq> None \<longrightarrow>
      (\<exists>s'. setFocus s (Some t) = Ok s' \<and> exactlyOneTabable s' \<and> keyboardReachable s' = [t]))"
proof (intro conjI impI)
  assume "reachable s"
  then show "exactlyOneTabable s" by (simp add: reachable_inv boardInv_exactlyOne)
next
  assume wh: "0 < w \<and> 0 < h"
  then have w: "0 < w" and h: "0 < h" by simp_all
  from mount_built [OF w h, of fp cfm a] obtain s0 where
    s0: "componentDidMount (newBoard w h fp cfm a) = Ok s0"
    "built (nat w) (nat h * nat w) s0" "width s0 = w" "height s0 = h" by blast
  with w h have inv: "boardInv s0" by (intro built_boardInv) simp_all
  have pos: "0 < nat h * nat w" using w h by simp
  with s0(2) have c: "currentTabableBtn s0 = Some (Button 0)"
    and d: "additionalButtonData s0 (Button 0) = Some (0, 0, defaultCell)"
    by (simp_all add: built_def)
  from boardInv_marks [OF inv] c s0(1) d
  show "\<exists>s0. componentDidMount (newBoard w h fp cfm a) = Ok s0 \<and>
            keyboardReachable s0 = [Button 0] \<and>
            keyboardUnreachable s0 = removeAll (Button 0) (buttons s0) \<and>
            additionalButtonData s0 (Button 0) = Some (0, 0, defaultCell)"
    by auto
next
  assume a: "reachable s \<and> additionalButtonData s t \<noteq> None"
  then have inv: "boardInv s" by (simp add: reachable_inv)
  from a obtain x y c where d: "additionalButtonData s t = Some (x, y, c)" by auto
  from setFocus_inv [OF inv d] obtain cur where
    r: "setFocus s (Some t) = Ok (focused s cur t x y)" "boardInv (focused s cur t x y)"
    by blast
  from boardInv_marks [OF r(2)] have "keyboardReachable (focused s cur t x y) = [t]" by auto
  with r show "\<exists>s'. setFocus s (Some t) = Ok s' \<and> exactlyOneTabable s' \<and> keyboardReachable s' = [t]"
    by (simp add: boardInv_exactlyOne)
qed

theorem roving_tabindex_witness:
  "(let m = mounted 2 2 True False;
        s1 = stateOf (handleEvent m (MouseMove (Button 3)))
    in reachable m \<and> exactlyOneTabable m \<and>
       reachable s1 \<and> exactlyOneTabable s1 \<and>
       componentDidMount (newBoard 2 2 True False (Some Body)) = Ok m \<and>
       keyboardReachable m = [Button 0] \<and>
       additionalButtonData m (Button 0) = Some (0, 0, defaultCell) \<and>
       additionalButtonData m (Button 3) \<noteq> None \<and>
       isOk (setFocus m (Some (Button 3))) \<and>
       exactlyOneTabable (stateOf (setFocus m (Some (Button 3)))) \<and>
       keyboardReachable (stateOf (setFocus m (Some (Button 3)))) = [Button 3])"
proof -
  let ?m = "mounted 2 2 True False"
  let ?s1 = "stateOf (handleEvent ?m (MouseMove (Button 3)))"
  have rm: "reachable ?m"
    unfolding mounted_def by (rule reachable.mount) simp_all
  have r1: "reachable ?s1" using rm by (rule reachable.step)
  have mo: "componentDidMount (newBoard 2 2 True False (Some Body)) = Ok ?m"
    by (simp add: mounted_Ok)
  have d3: "additionalButtonData ?m (Button 3) \<noteq> None" by (simp add: mounted_data)
  from roving_tabindex [of ?m 2 2 True False "Some Body" "Button 3"] rm d3 mo
    roving_tabindex [of ?s1 2 2 True False "Some Body" "Button 3"] r1
  show ?thesis unfolding Let_def by auto
qed

subsection \<open>Activation\<close>

lemma clicks_logEffect [simp]: "clicks (logEffect e s) = clicks s @ clickOf e"
  by (simp add: clicks_def)

lemma clicks_simulateClick [simp]:
  "clicks (simulateClick s b alt) = clicks s @ [(additionalButtonData s b, alt)]"
  by (simp add: clicks_def)

lemma clicks_blurCalls [simp]: "concat (map clickOf (blurCalls s b)) = []"
  by (auto simp: blurCalls_def split: option.splits)

lemma boardInv_Body:
  assumes "boardInv s"
  shows "additionalButtonData s Body = None" and "additionalButtonData s (Foreign n) = None"
proof -
  have bt: "buttons s = map Button [0..<gridSize s]" using assms by (simp add: boardInv_def)
  have no: "e \<notin> set (buttons s) \<Longrightarrow> additionalButtonData s e = None" for e
    using assms unfolding boardInv_def by blast
  show "additionalButtonData s Body = None" by (rule no) (auto simp: bt)
  show "additionalButtonData s (Foreign n) = None" by (rule no) (auto simp: bt)
qed

lemma clicks_focused [simp]: "clicks (focused s cur b x y) = clicks s"
  by (simp add: clicks_def focused_def)

lemma visualFocus_logEffect:
  "visualFocus (logEffect e s) = lastFocusCall (visualFocus s) e"
  by (simp add: visualFocus_def)

lemma visualFocus_simulateClick [simp]: "visualFocus (simulateClick s b alt) = visualFocus s"
  by (simp add: simulateClick_def visualFocus_logEffect lastFocusCall_def)

text \<open>
  Claim C6: pointer-up over a grid element. The activation callback is called exactly
  once, with the alternate flag set exactly when the event's button is 2. Without the
  feature flags the element under the pointer is activated and the focus is untouched.
  With them, when no grid element is the active element, \<^verbatim>\<open>setFocus\<close> moves the
  focus to the element under the pointer and that element is activated; when a grid
  element is the active element, that element is activated, whichever element is under
  the pointer, and the focus is untouched.
\<close>

theorem onMouseUp_activation:
  assumes inv: "boardInv s" and d: "additionalButtonData s target = Some (tx, ty, tc)"
  shows "\<exists>s'. onMouseUp s target btn = Ok s' \<and>
           clicks s' = clicks s @
             [(if constrainedInput s \<and> dataOf s (activeElement s) \<noteq> None
               then dataOf s (activeElement s) else Some (tx, ty, tc), btn = 2)] \<and>
           (if constrainedInput s \<and> dataOf s (activeElement s) = None
            then currentTabableBtn s' = Some target \<and> activeElement s' = Some target \<and>
                 visualFocus s' = Some (tx, ty)
            else currentTabableBtn s' = currentTabableBtn s \<and> activeElement s' = activeElement s \<and>
                 attrs s' = attrs s \<and> visualFocus s' = visualFocus s)"
proof (cases "constrainedInput s")
  case False
  then have nf: "\<not> (isFeaturePhone s \<or> cellFocusMode s)" by (simp add: constrainedInput_def)
  show ?thesis
    unfolding onMouseUp_plain [OF d nf] using False d
    by (simp add: visualFocus_logEffect lastFocusCall_def)
next
  case True
  then have fl: "isFeaturePhone s \<or> cellFocusMode s" by (simp add: constrainedInput_def)
  show ?thesis
  proof (cases "dataOf s (activeElement s)")
    case None
    from boardInv_tabable [OF inv] obtain k where k: "currentTabableBtn s = Some (Button k)"
      by blast
    show ?thesis
      unfolding onMouseUp_focus [OF d fl None k] using True None d by simp
  next
    case (Some ad)
    then obtain a where a: "activeElement s = Some a" "additionalButtonData s a = Some ad"
      by (auto simp: dataOf_def split: option.splits)
    show ?thesis
      unfolding onMouseUp_redirect [OF d fl a] using True Some a
      by (simp add: visualFocus_logEffect lastFocusCall_def)
  qed
qed

theorem onMouseUp_activation_witness:
  "(let plain = mounted 3 4 False False;
        phone = mounted 3 4 True False;
        held = phone\<lparr>activeElement := Some (Button 0)\<rparr>
    in boardInv plain \<and> boardInv phone \<and> boardInv held \<and>
       additionalButtonData plain (Button 11) = Some (2, 3, defaultCell) \<and>
       clicks (stateOf (onMouseUp plain (Button 11) 2)) =
         clicks plain @ [(Some (2, 3, defaultCell), True)] \<and>
       clicks (stateOf (onMouseUp plain (Button 11) 0)) =
         clicks plain @ [(Some (2, 3, defaultCell), False)] \<and>
       activeElement (stateOf (onMouseUp plain (Button 11) 0)) = Some Body \<and>
       clicks (stateOf (onMouseUp phone (Button 11) 0)) =
         clicks phone @ [(Some (2, 3, defaultCell), False)] \<and>
       activeElement (stateOf (onMouseUp phone (Button 11) 0)) = Some (Button 11) \<and>
       clicks (stateOf (onMouseUp held (Button 11) 0)) =
         clicks held @ [(Some (0, 0, defaultCell), False)] \<and>
       activeElement (stateOf (onMouseUp held (Button 11) 0)) = Some (Button 0))"
proof -
  let ?plain = "mounted 3 4 False False"
  let ?phone = "mounted 3 4 True False"
  let ?held = "?phone\<lparr>activeElement := Some (Button 0)\<rparr>"
  have i1: "boardInv ?plain" and i2: "boardInv ?phone" by (simp_all add: mounted_inv)
  have i3: "boardInv ?held" using i2 by (rule boardInv_active)
  have d1: "additionalButtonData ?plain (Button 11) = Some (2, 3, defaultCell)"
    and d2: "additionalButtonData ?phone (Button 11) = Some (2, 3, defaultCell)"
    and d0: "additionalButtonData ?phone (Button 0) = Some (0, 0, defaultCell)"
    and b2: "additionalButtonData ?phone Body = None"
    using boardInv_Body(1) [OF i2] by (simp_all add: mounted_data)
  have d3: "additionalButtonData ?held (Button 11) = Some (2, 3, defaultCell)"
    using d2 by simp
  have f: "\<not> constrainedInput ?plain" "constrainedInput ?phone" "constrainedInput ?held"
    "activeElement ?plain = Some Body" "activeElement ?phone = Some Body"
    by (simp_all add: constrainedInput_def mounted_built)
  have a: "dataOf ?phone (activeElement ?phone) = None"
    "dataOf ?held (activeElement ?held) = Some (0, 0, defaultCell)"
    using b2 d0 by (simp_all add: dataOf_def mounted_built)
  show ?thesis
    unfolding Let_def
    using i1 i2 i3 d1
      onMouseUp_activation [OF i1 d1, of 2] onMouseUp_activation [OF i1 d1, of 0]
      onMouseUp_activation [OF i2 d2, of 0] onMouseUp_activation [OF i3 d3, of 0] f a
    by (auto simp del: One_nat_def)
qed

subsection \<open>Hover\<close>

lemma visualFocus_removeFocusVisual [simp]:
  "visualFocus (removeFocusVisual s) = Some (- 1, - 1)"
  by (simp add: removeFocusVisual_def visualFocus_logEffect lastFocusCall_def)

lemma tabindexOf_focused [simp]: "tabindexOf (focused s cur b x y) b = Some ''0''"
  by (simp add: tabindexOf_def getAttribute_def focused_def Let_def)

text \<open>
  Claim C5, as the code has it: on a constrained-input device a pointer move over a
  grid element calls \<^verbatim>\<open>setFocus\<close> on it, so that element becomes the tabable button
  (marked \<open>tabindex = 0\<close>) and the active element, and the visual indicator moves to
  its coordinate; a pointer move over anything else only clears the visual indicator:
  no field of the state but the log of effects changes. Without the feature flags the
  listener is not registered and a pointer move does nothing.
\<close>

theorem hover_moves_focus:
  assumes inv: "boardInv s"
  shows "(constrainedInput s \<and> additionalButtonData s target = Some (x, y, c) \<longrightarrow>
            (\<exists>s'. onMouseMove s target = Ok s' \<and>
                  currentTabableBtn s' = Some target \<and> activeElement s' = Some target \<and>
                  tabindexOf s' target = Some ''0'' \<and> visualFocus s' = Some (x, y) \<and>
                  additionalButtonData s' = additionalButtonData s)) \<and>
         (constrainedInput s \<and> additionalButtonData s target = None \<longrightarrow>
            onMouseMove s target = Ok (removeFocusVisual s) \<and>
            visualFocus (removeFocusVisual s) = Some (- 1, - 1) \<and>
            (removeFocusVisual s)\<lparr>effects := effects s\<rparr> = s) \<and>
         (\<not> constrainedInput s \<longrightarrow> onMouseMove s target = Ok s)"
proof (intro conjI impI)
  assume a: "constrainedInput s \<and> additionalButtonData s target = Some (x, y, c)"
  from boardInv_tabable [OF inv] obtain k where k: "currentTabableBtn s = Some (Button k)"
    by blast
  from a moveFocusWithMouse_hit [of s target x y c, OF _ k]
  show "\<exists>s'. onMouseMove s target = Ok s' \<and>
                  currentTabableBtn s' = Some target \<and> activeElement s' = Some target \<and>
                  tabindexOf s' target = Some ''0'' \<and> visualFocus s' = Some (x, y) \<and>
                  additionalButtonData s' = additionalButtonData s"
    by (simp add: onMouseMove_def constrainedInput_def)
next
  assume "constrainedInput s \<and> additionalButtonData s target = None"
  then show "onMouseMove s target = Ok (removeFocusVisual s)"
    by (simp add: onMouseMove_def constrainedInput_def moveFocusWithMouse_miss)
next
  show "(removeFocusVisual s)\<lparr>effects := effects s\<rparr> = s"
    by (simp add: removeFocusVisual_def logEffect_def)
next
  assume "\<not> constrainedInput s"
  then show "onMouseMove s target = Ok s" by (simp add: onMouseMove_def constrainedInput_def)
qed simp

theorem hover_moves_focus_witness:
  "(let s0 = (mounted 3 3 True False)\<lparr>activeElement := Some (Button 0)\<rparr>;
        s1 = stateOf (onMouseMove s0 (Button 8));
        plain = mounted 3 3 False False
    in boardInv s0 \<and> constrainedInput s0 \<and>
       additionalButtonData s0 (Button 8) = Some (2, 2, defaultCell) \<and>
       currentTabableBtn s1 = Some (Button 8) \<and> activeElement s1 = Some (Button 8) \<and>
       visualFocus s1 = Some (2, 2) \<and>
       additionalButtonData s0 (Foreign 0) = None \<and>
       onMouseMove s0 (Foreign 0) = Ok (removeFocusVisual s0) \<and>
       boardInv plain \<and> \<not> constrainedInput plain \<and> onMouseMove plain (Button 8) = Ok plain)"
proof -
  let ?s0 = "(mounted 3 3 True False)\<lparr>activeElement := Some (Button 0)\<rparr>"
  let ?plain = "mounted 3 3 False False"
  have i0: "boardInv ?s0" by (rule boardInv_active) (simp add: mounted_inv)
  have ip: "boardInv ?plain" by (simp add: mounted_inv)
  have c: "constrainedInput ?s0" "\<not> constrainedInput ?plain"
    by (simp_all add: constrainedInput_def mounted_built)
  have d: "additionalButtonData ?s0 (Button 8) = Some (2, 2, defaultCell)"
    by (simp add: mounted_data)
  have n: "additionalButtonData ?s0 (Foreign 0) = None" by (rule boardInv_Body [OF i0])
  show ?thesis
    unfolding Let_def
    using i0 ip c d n hover_moves_focus [OF i0, of "Button 8" 2 2 defaultCell]
      hover_moves_focus [OF i0, of "Foreign 0"] hover_moves_focus [OF ip, of "Button 8"]
    by auto
qed

text \<open>
  The claim as the specification states it fails: on a constrained-input device with
  the focus on the element of coordinate \<open>(0, 0)\<close>, a pointer move over the element
  of coordinate \<open>(2, 2)\<close> changes the active element and the tabable button.
\<close>

theorem hover_keeps_focus_counterexample:
  "\<not> (activeElement (stateOf (onMouseMove ((mounted 3 3 True False)\<lparr>activeElement := Some (Button 0)\<rparr>)
                                (Button 8)))
        = activeElement ((mounted 3 3 True False)\<lparr>activeElement := Some (Button 0)\<rparr>) \<and>
      currentTabableBtn (stateOf (onMouseMove ((mounted 3 3 True False)\<lparr>activeElement := Some (Button 0)\<rparr>)
                                (Button 8)))
        = currentTabableBtn ((mounted 3 3 True False)\<lparr>activeElement := Some (Button 0)\<rparr>))"
proof -
  let ?s0 = "(mounted 3 3 True False)\<lparr>activeElement := Some (Button 0)\<rparr>"
  have d: "additionalButtonData ?s0 (Button 8) = Some (2, 2, defaultCell)"
    by (simp add: mounted_data)
  have k: "currentTabableBtn ?s0 = Some (Button 0)" by (simp add: mounted_tabable)
  have "isFeaturePhone ?s0" by (simp add: mounted_built)
  then have "onMouseMove ?s0 (Button 8) =
      Ok (focused (unfocusOther ?s0 (Button 8)) (Button 0) (Button 8) 2 2)"
    using moveFocusWithMouse_hit [OF d k] by (simp add: onMouseMove_def)
  then show ?thesis by simp
qed

subsection \<open>Digit keys\<close>

lemma moveFocusByKey_inside:
  assumes inv: "boardInv s" and fd: "focusData s = Some (x, y, c)"
    and ig: "inGrid s (x + h) (y + v)" and cur: "currentTabableBtn s = Some cur"
  shows "moveFocusByKey s h v =
           Ok (focused (resolved s) cur (Button (nat ((x + h) + (y + v) * width s))) (x + h) (y + v))"
proof -
  have "inGrid (resolved s) (x + h) (y + v)" using ig by (simp add: inGrid_def)
  from moveFrom_inside [OF boardInv_resolved [OF inv] _ this, of cur c] cur
  show ?thesis by (simp add: moveFocusByKey_resolved [OF inv fd])
qed

lemma keydown_9_position:
  assumes inv: "boardInv s" and pos: "focusPosition s = Some (x, y)" and ig: "inGrid s (x + 1) y"
  shows "focusPosition (stateOf (onKeyDownOnTable s ''9'')) = Some (x + 1, y)"
proof -
  from pos obtain c where fd: "focusData s = Some (x, y, c)"
    by (auto simp: focusPosition_def split: option.splits)
  from boardInv_tabable [OF inv] obtain k where k: "currentTabableBtn s = Some (Button k)"
    by blast
  from ig have b: "0 \<le> x + 1" "x + 1 < width s" "0 \<le> y + 0" "y + 0 < height s"
    by (simp_all add: inGrid_def)
  from boardInv_arrayGet(3) [OF inv b] obtain c' where
    dj: "additionalButtonData s (Button (nat ((x + 1) + (y + 0) * width s))) = Some (x + 1, y + 0, c')"
    by blast
  have "focusData (focused (resolved s) (Button k) (Button (nat ((x + 1) + (y + 0) * width s)))
      (x + 1) (y + 0)) = Some (x + 1, y + 0, c')"
    using dj by (intro focusData_focused) simp
  with moveFocusByKey_inside [OF inv fd _ k, of 1 0] ig show ?thesis
    by (simp add: onKeyDownOnTable_def focusPosition_def)
qed

lemma keydown_8_clicks:
  "activeElement s = Some b \<Longrightarrow>
   clicks (stateOf (onKeyDownOnTable s ''8'')) = clicks s @ [(additionalButtonData s b, False)]"
  by (simp add: onKeyDownOnTable_def)

text \<open>
  Claim C7, as the code has it: the key-down handler of the table does not read the
  feature flags. On every device the digits 9, 7, 5, 0 are handled exactly like
  ArrowRight, ArrowLeft, ArrowUp, ArrowDown (a move by \<open>(1,0)\<close>, \<open>(-1,0)\<close>, \<open>(0,-1)\<close>,
  \<open>(0,1)\<close>) and 8 exactly like Enter. The flags gate only the key-up handler of the
  window, which on a constrained-input device runs a move by \<open>(0,0)\<close> when 9, 7, 5 or
  0 is released and does nothing otherwise. So on a device without the flags the digit
  9 moves the focus one column to the right when that is inside the grid, and the
  digit 8 calls the activation callback for the active element.
\<close>

theorem digit_keys_on_every_device:
  "onKeyDownOnTable s ''9'' = moveFocusByKey s 1 0 \<and>
   onKeyDownOnTable s ''ArrowRight'' = moveFocusByKey s 1 0 \<and>
   onKeyDownOnTable s ''7'' = moveFocusByKey s (- 1) 0 \<and>
   onKeyDownOnTable s ''ArrowLeft'' = moveFocusByKey s (- 1) 0 \<and>
   onKeyDownOnTable s ''5'' = moveFocusByKey s 0 (- 1) \<and>
   onKeyDownOnTable s ''ArrowUp'' = moveFocusByKey s 0 (- 1) \<and>
   onKeyDownOnTable s ''0'' = moveFocusByKey s 0 1 \<and>
   onKeyDownOnTable s ''ArrowDown'' = moveFocusByKey s 0 1 \<and>
   onKeyDownOnTable s ''8'' = onKeyDownOnTable s ''Enter'' \<and>
   (\<not> constrainedInput s \<longrightarrow> onKeyUp s key = Ok s) \<and>
   (constrainedInput s \<and> key \<in> {''9'', ''7'', ''5'', ''0''} \<longrightarrow>
      onKeyUp s key = moveFocusByKey s 0 0) \<and>
   (constrainedInput s \<and> key \<notin> {''9'', ''7'', ''5'', ''0''} \<longrightarrow> onKeyUp s key = Ok s) \<and>
   (\<not> constrainedInput s \<and> boardInv s \<and> focusPosition s = Some (x, y) \<and> inGrid s (x + 1) y \<longrightarrow>
      focusPosition (stateOf (onKeyDownOnTable s ''9'')) = Some (x + 1, y)) \<and>
   (\<not> constrainedInput s \<and> activeElement s = Some b \<longrightarrow>
      clicks (stateOf (onKeyDownOnTable s ''8'')) = clicks s @ [(additionalButtonData s b, False)])"
  using keydown_9_position [of s x y] keydown_8_clicks [of s b]
  by (auto simp: onKeyDownOnTable_def onKeyUp_def constrainedInput_def)

theorem digit_keys_on_every_device_witness:
  "(let s0 = (mounted 3 3 False False)\<lparr>activeElement := Some (Button 0)\<rparr>;
        phone = mounted 3 3 True False
    in \<not> constrainedInput s0 \<and> boardInv s0 \<and> focusPosition s0 = Some (0, 0) \<and>
       inGrid s0 (0 + 1) 0 \<and>
       focusPosition (stateOf (onKeyDownOnTable s0 ''9'')) = Some (1, 0) \<and>
       clicks (stateOf (onKeyDownOnTable s0 ''8'')) = clicks s0 @ [(Some (0, 0, defaultCell), False)] \<and>
       onKeyDownOnTable s0 ''9'' = onKeyDownOnTable s0 ''ArrowRight'' \<and>
       onKeyUp s0 ''9'' = Ok s0 \<and>
       constrainedInput phone \<and> onKeyUp phone ''9'' = moveFocusByKey phone 0 0 \<and>
       onKeyUp phone ''ArrowRight'' = Ok phone)"
proof -
  let ?s0 = "(mounted 3 3 False False)\<lparr>activeElement := Some (Button 0)\<rparr>"
  let ?phone = "mounted 3 3 True False"
  have i0: "boardInv ?s0" by (rule boardInv_active) (simp add: mounted_inv)
  have c: "\<not> constrainedInput ?s0" "constrainedInput ?phone"
    by (simp_all add: constrainedInput_def mounted_built)
  have d: "additionalButtonData ?s0 (Button 0) = Some (0, 0, defaultCell)"
    by (simp add: mounted_data)
  have p: "focusPosition ?s0 = Some (0, 0)"
    using focusPosition_active [of "mounted 3 3 False False" "Button 0" 0 0 defaultCell] d
    by simp
  have g: "inGrid ?s0 (0 + 1) 0" by (simp add: inGrid_def mounted_built)
  have a: "activeElement ?s0 = Some (Button 0)" by simp
  show ?thesis
    unfolding Let_def
    using i0 c p g d a
      digit_keys_on_every_device [of ?s0 "''9''" 0 0 "Button 0"]
      digit_keys_on_every_device [of ?phone "''9''" 0 0 "Button 0"]
      digit_keys_on_every_device [of ?phone "''ArrowRight''" 0 0 "Button 0"]
    by auto
qed

text \<open>
  The claim as the specification states it fails: on a board without the feature
  flags, with the focus on the element of coordinate \<open>(0, 0)\<close>, the digit 9 moves the
  focus and the digit 8 calls the activation callback.
\<close>

theorem digit_keys_gated_counterexample:
  "\<not> (\<not> constrainedInput ((mounted 3 3 False False)\<lparr>activeElement := Some (Button 0)\<rparr>) \<longrightarrow>
        focusPosition (stateOf (onKeyDownOnTable
            ((mounted 3 3 False False)\<lparr>activeElement := Some (Button 0)\<rparr>) ''9''))
          = focusPosition ((mounted 3 3 False False)\<lparr>activeElement := Some (Button 0)\<rparr>) \<or>
        clicks (stateOf (onKeyDownOnTable
            ((mounted 3 3 False False)\<lparr>activeElement := Some (Button 0)\<rparr>) ''8''))
          = clicks ((mounted 3 3 False False)\<lparr>activeElement := Some (Button 0)\<rparr>))"
proof -
  let ?s0 = "(mounted 3 3 False False)\<lparr>activeElement := Some (Button 0)\<rparr>"
  have i0: "boardInv ?s0" by (rule boardInv_active) (simp add: mounted_inv)
  have c: "\<not> constrainedInput ?s0" by (simp add: constrainedInput_def mounted_built)
  have d: "additionalButtonData ?s0 (Button 0) = Some (0, 0, defaultCell)"
    by (simp add: mounted_data)
  have p: "focusPosition ?s0 = Some (0, 0)"
    using focusPosition_active [of "mounted 3 3 False False" "Button 0" 0 0 defaultCell] d
    by simp
  have g: "inGrid ?s0 (0 + 1) 0" by (simp add: inGrid_def mounted_built)
  have "focusPosition (stateOf (onKeyDownOnTable ?s0 ''9'')) = Some (0 + 1, 0)"
    using i0 p g by (rule keydown_9_position)
  moreover have "clicks (stateOf (onKeyDownOnTable ?s0 ''8'')) \<noteq> clicks ?s0"
    using keydown_8_clicks [of ?s0 "Button 0"] by simp
  ultimately show ?thesis using c p by simp
qed

section \<open>Descriptions\<close>

lemma of_char_digitChar: "d < 10 \<Longrightarrow> (of_char (digitChar d) :: nat) = 48 + d"
  by (simp add: digitChar_def)

lemma isDigit_digitChar: "d < 10 \<Longrightarrow> isDigit (digitChar d)"
  by (simp add: isDigit_def of_char_digitChar)

lemma digitChar_0: "digitChar 0 = CHR ''0''"
  by code_simp

lemma digitChar_zero: "d < 10 \<Longrightarrow> (digitChar d = CHR ''0'') = (d = 0)"
proof
  assume d: "d < 10" and "digitChar d = CHR ''0''"
  then have "(of_char (digitChar d) :: nat) = of_char (CHR ''0'')" by simp
  with d show "d = 0" by (simp add: of_char_digitChar)
next
  assume "d = 0"
  then show "digitChar d = CHR ''0''" by (simp add: digitChar_0)
qed

lemma natToString_nonempty: "natToString n \<noteq> []"
  by (subst natToString.simps) simp

lemma natToString_digits: "list_all isDigit (natToString n)"
proof (induction n rule: natToString.induct)
  case (1 n)
  show ?case
  proof (cases "n < 10")
    case True
    then show ?thesis by (subst natToString.simps) (simp add: isDigit_digitChar)
  next
    case False
    with 1 show ?thesis by (subst natToString.simps) (simp add: isDigit_digitChar)
  qed
qed

lemma decimalValue_snoc: "decimalValue (str @ [ch]) = 10 * decimalValue str + (of_char ch - 48)"
  by (simp add: decimalValue_def)

lemma natToString_value: "decimalValue (natToString n) = n"
proof (induction n rule: natToString.induct)
  case (1 n)
  show ?case
  proof (cases "n < 10")
    case True
    then show ?thesis
      by (subst natToString.simps) (simp add: decimalValue_def of_char_digitChar)
  next
    case False
    with 1 have "decimalValue (natToString (n div 10)) = n div 10" by simp
    with False show ?thesis
      by (subst natToString.simps) (simp add: decimalValue_snoc of_char_digitChar)
  qed
qed

lemma natToString_leading: "hd (natToString n) = CHR ''0'' \<Longrightarrow> n = 0"
proof (induction n rule: natToString.induct)
  case (1 n)
  show ?case
  proof (cases "n < 10")
    case True
    with "1.prems" show ?thesis
      by (subst (asm) natToString.simps) (simp add: digitChar_zero)
  next
    case False
    with "1.prems" have "hd (natToString (n div 10)) = CHR ''0''"
      by (subst (asm) natToString.simps) (simp add: natToString_nonempty)
    with 1 False have "n div 10 = 0" by simp
    with False show ?thesis by simp
  qed
qed

lemma natToString_zero: "natToString 0 = ''0''"
  by (subst natToString.simps) (simp add: digitChar_0)

lemma natToString_decimal: "decimalDigits (natToString n) n"
  using natToString_leading [of n]
  by (auto simp: decimalDigits_def natToString_nonempty natToString_digits natToString_value
      natToString_zero)

lemma numberToString_decimal: "decimalString (numberToString n) n"
  by (simp add: decimalString_def numberToString_def natToString_decimal)

lemma cellState_spec: "specDescription c (cellState c)"
  by (simp add: specDescription_def cellState_def numberToString_decimal)

section \<open>Applying a batch\<close>

lemma index_inGrid:
  assumes inv: "boardInv s" and ig: "inGrid s x y"
  shows "nat (y * width s + x) < gridSize s"
    and "buttons s ! nat (y * width s + x) = Button (nat (y * width s + x))"
    and "0 \<le> y * width s + x"
    and "arrayGet (buttons s) (y * width s + x) = Some (Button (nat (y * width s + x)))"
    and "\<exists>old. additionalButtonData s (Button (nat (y * width s + x))) = Some (x, y, old)"
proof -
  from ig have b: "0 \<le> x" "x < width s" "0 \<le> y" "y < height s" by (simp_all add: inGrid_def)
  have e: "x + y * width s = y * width s + x" by simp
  note ag = boardInv_arrayGet [OF inv b, unfolded e]
  show "nat (y * width s + x) < gridSize s" by (rule ag(2))
  then show "buttons s ! nat (y * width s + x) = Button (nat (y * width s + x))"
    using inv by (simp add: boardInv_def)
  show "0 \<le> y * width s + x" using b inv by (simp add: boardInv_def)
  show "arrayGet (buttons s) (y * width s + x) = Some (Button (nat (y * width s + x)))"
    by (rule ag(1))
  show "\<exists>old. additionalButtonData s (Button (nat (y * width s + x))) = Some (x, y, old)"
    by (rule ag(3))
qed

lemma applyChange_inGrid:
  assumes inv: "boardInv s" and ig: "inGrid s x y"
  shows "applyChange (x, y, c) s = Ok (updated s (Button (nat (y * width s + x))) x y c)"
    and "boardInv (updated s (Button (nat (y * width s + x))) x y c)"
proof -
  note ix = index_inGrid [OF inv ig]
  from ix(5) obtain old where
    d: "additionalButtonData s (Button (nat (y * width s + x))) = Some (x, y, old)" by blast
  show "applyChange (x, y, c) s = Ok (updated s (Button (nat (y * width s + x))) x y c)"
    using ix(4) updateButton_updated [OF d] by (simp add: applyChange_def)
  show "boardInv (updated s (Button (nat (y * width s + x))) x y c)"
    using inv d by (rule boardInv_updated)
qed

lemma applied_fields [simp]:
  "width (applied s gc) = width s" "height (applied s gc) = height s"
  "buttons (applied s gc) = buttons s"
  "currentTabableBtn (applied s gc) = currentTabableBtn s"
  "activeElement (applied s gc) = activeElement s"
  "isFeaturePhone (applied s gc) = isFeaturePhone s"
  "cellFocusMode (applied s gc) = cellFocusMode s"
  "tabindexOf (applied s gc) e = tabindexOf s e"
  by (induction s gc rule: applied.induct) simp_all

lemma forEach_applied:
  "boardInv s \<Longrightarrow> allInGrid s gc \<Longrightarrow>
   forEach applyChange gc s = Ok (applied s gc) \<and> boardInv (applied s gc)"
proof (induction s gc rule: applied.induct)
  case (1 s)
  then show ?case by simp
next
  case (2 s x y c rest)
  from "2.prems" have ig: "inGrid s x y" and r: "allInGrid s rest"
    by (simp_all add: allInGrid_def)
  let ?s1 = "updated s (Button (nat (y * width s + x))) x y c"
  note ac = applyChange_inGrid [OF "2.prems"(1) ig, of c]
  note ix = index_inGrid [OF "2.prems"(1) ig]
  have "allInGrid ?s1 rest" using r by (simp add: allInGrid_def inGrid_def)
  from "2.IH" [OF ac(2) this] ac(1) show ?case by simp
qed

lemma applied_effects:
  "boardInv s \<Longrightarrow> allInGrid s gc \<Longrightarrow>
   effects (applied s gc) = effects s @ map (labelWrite s) gc"
proof (induction s gc rule: applied.induct)
  case (1 s)
  then show ?case by simp
next
  case (2 s x y c rest)
  from "2.prems" have ig: "inGrid s x y" and r: "allInGrid s rest"
    by (simp_all add: allInGrid_def)
  let ?s1 = "updated s (Button (nat (y * width s + x))) x y c"
  note ac = applyChange_inGrid [OF "2.prems"(1) ig, of c]
  note ix = index_inGrid [OF "2.prems"(1) ig]
  have a1: "allInGrid ?s1 rest" using r by (simp add: allInGrid_def inGrid_def)
  have lw: "labelWrite ?s1 = labelWrite s" by (rule ext) (simp add: labelWrite_def)
  from "2.IH" [OF ac(2) a1] ix(2) show ?case by (simp add: lw) (simp add: labelWrite_def)
qed

lemma applied_label:
  "boardInv s \<Longrightarrow> allInGrid s gc \<Longrightarrow>
   getAttribute (applied s gc) (Button i) ''aria-label'' =
     (case lastAt (width s) gc (int i) of
        None \<Rightarrow> getAttribute s (Button i) ''aria-label''
      | Some c \<Rightarrow> Some (cellState c))"
proof (induction s gc rule: applied.induct)
  case (1 s)
  then show ?case by simp
next
  case (2 s x y c rest)
  from "2.prems" have ig: "inGrid s x y" and r: "allInGrid s rest"
    by (simp_all add: allInGrid_def)
  let ?s1 = "updated s (Button (nat (y * width s + x))) x y c"
  note ac = applyChange_inGrid [OF "2.prems"(1) ig, of c]
  note ix = index_inGrid [OF "2.prems"(1) ig]
  have a1: "allInGrid ?s1 rest" using r by (simp add: allInGrid_def inGrid_def)
  have e: "(i = nat (y * width s + x)) = (y * width s + x = int i)" using ix(3) by auto
  from "2.IH" [OF ac(2) a1] show ?case by (simp add: e split: option.splits)
qed

lemma applied_data:
  "boardInv s \<Longrightarrow> allInGrid s gc \<Longrightarrow>
   additionalButtonData (applied s gc) (Button i) =
     (case lastAt (width s) gc (int i) of
        None \<Rightarrow> additionalButtonData s (Button i)
      | Some c \<Rightarrow> Some (int i mod width s, int i div width s, c))"
proof (induction s gc rule: applied.induct)
  case (1 s)
  then show ?case by simp
next
  case (2 s x y c rest)
  from "2.prems" have ig: "inGrid s x y" and r: "allInGrid s rest"
    by (simp_all add: allInGrid_def)
  let ?s1 = "updated s (Button (nat (y * width s + x))) x y c"
  note ac = applyChange_inGrid [OF "2.prems"(1) ig, of c]
  note ix = index_inGrid [OF "2.prems"(1) ig]
  have a1: "allInGrid ?s1 rest" using r by (simp add: allInGrid_def inGrid_def)
  have e: "(i = nat (y * width s + x)) = (y * width s + x = int i)" using ix(3) by auto
  from ig have b: "0 \<le> x" "x < width s" by (simp_all add: inGrid_def)
  have md: "int i mod width s = x \<and> int i div width s = y" if "y * width s + x = int i"
  proof -
    have "(y * width s + x) mod width s = x" "(y * width s + x) div width s = y"
      using b by simp_all
    then show ?thesis unfolding that by simp
  qed
  show ?case
  proof (cases "lastAt (width s) rest (int i)")
    case None
    with "2.IH" [OF ac(2) a1] md show ?thesis by (simp add: e)
  next
    case (Some c')
    with "2.IH" [OF ac(2) a1] show ?thesis by simp
  qed
qed

lemma doManualDomHandling_applied:
  assumes "boardInv s" and "allInGrid s gc" and "gridChanges sc = Some gc"
  shows "doManualDomHandling s sc = Ok (logEffect (AnimatorUpdateCells gc) (applied s gc))"
  using forEach_applied [OF assms(1,2)] assms(3) by (simp add: doManualDomHandling_def)

section \<open>The sync bridge\<close>

lemma label_updated:
  "getAttribute (updated s b bx by c) b ''aria-label'' = Some (cellState c)"
  by simp

text \<open>
  Claim C1: the accessibility description. Whenever \<^verbatim>\<open>_updateButton\<close> is run for a
  grid element and a cell, the element's \<open>aria-label\<close> becomes a string that the
  precedence table of the specification allows for the cell: \<open>flag\<close> or \<open>hidden\<close> when
  not revealed, \<open>black hole\<close> when revealed with a mine, \<open>blank\<close> when revealed with no
  mine and no touching mine, and otherwise the decimal string of \<open>touchingMines\<close>. After
  mounting, every grid element carries the description of the neutral default cell,
  which is \<open>hidden\<close>. After a batch of changes in the grid, the element at index
  \<open>y * width + x\<close> carries the description of the cell of the last change of the batch
  that addresses it.
\<close>

theorem description_follows_precedence:
  "(additionalButtonData s b = Some (bx, by, old) \<longrightarrow>
      (\<exists>s' d. updateButton s (Some b) c x y = Ok s' \<and>
              getAttribute s' b ''aria-label'' = Some d \<and> specDescription c d)) \<and>
   (0 < w \<and> 0 < h \<and> i < nat h * nat w \<longrightarrow>
      (\<exists>s0 d. componentDidMount (newBoard w h fp cfm a) = Ok s0 \<and>
              getAttribute s0 (Button i) ''aria-label'' = Some d \<and>
              specDescription defaultCell d \<and> d = ''hidden'')) \<and>
   (boardInv s \<and> allInGrid s gc \<and> inGrid s gx gy \<and>
    lastAt (width s) gc (gy * width s + gx) = Some gcell \<longrightarrow>
      (\<exists>s' d. doManualDomHandling s \<lparr>gridChanges = Some gc\<rparr> = Ok s' \<and>
              getAttribute s' (buttons s ! nat (gy * width s + gx)) ''aria-label'' = Some d \<and>
              specDescription gcell d))"
proof (intro conjI impI)
  assume "additionalButtonData s b = Some (bx, by, old)"
  then show "\<exists>s' d. updateButton s (Some b) c x y = Ok s' \<and>
              getAttribute s' b ''aria-label'' = Some d \<and> specDescription c d"
    by (simp add: updateButton_updated cellState_spec)
next
  assume "0 < w \<and> 0 < h \<and> i < nat h * nat w"
  then have w: "0 < w" and h: "0 < h" and i: "i < nat h * nat w" by simp_all
  from mount_built [OF w h, of fp cfm a] obtain s0 where
    s0: "componentDidMount (newBoard w h fp cfm a) = Ok s0" "built (nat w) (nat h * nat w) s0"
    by blast
  from s0(2) i have "getAttribute s0 (Button i) ''aria-label'' = Some ''hidden''"
    by (simp add: built_def)
  moreover have "specDescription defaultCell ''hidden''"
    using cellState_spec [of defaultCell] by simp
  ultimately show "\<exists>s0 d. componentDidMount (newBoard w h fp cfm a) = Ok s0 \<and>
              getAttribute s0 (Button i) ''aria-label'' = Some d \<and>
              specDescription defaultCell d \<and> d = ''hidden''"
    using s0(1) by simp
next
  assume a: "boardInv s \<and> allInGrid s gc \<and> inGrid s gx gy \<and>
    lastAt (width s) gc (gy * width s + gx) = Some gcell"
  then have inv: "boardInv s" and gc: "allInGrid s gc" and ig: "inGrid s gx gy"
    and la: "lastAt (width s) gc (gy * width s + gx) = Some gcell" by simp_all
  note ix = index_inGrid [OF inv ig]
  have "getAttribute (applied s gc) (Button (nat (gy * width s + gx))) ''aria-label'' =
      Some (cellState gcell)"
    using applied_label [OF inv gc, of "nat (gy * width s + gx)"] ix(3) la by simp
  then have "getAttribute (logEffect (AnimatorUpdateCells gc) (applied s gc))
      (buttons s ! nat (gy * width s + gx)) ''aria-label'' = Some (cellState gcell)"
    by (simp add: ix(2) getAttribute_def)
  with doManualDomHandling_applied [OF inv gc, of "\<lparr>gridChanges = Some gc\<rparr>"]
  show "\<exists>s' d. doManualDomHandling s \<lparr>gridChanges = Some gc\<rparr> = Ok s' \<and>
              getAttribute s' (buttons s ! nat (gy * width s + gx)) ''aria-label'' = Some d \<and>
              specDescription gcell d"
    by (simp add: cellState_spec)
qed


theorem description_follows_precedence_witness:
  "(let m = mounted 2 2 False False;
        blank = \<lparr>flagged = False, hasMine = False, revealed = True, touchingFlags = 0, touchingMines = 0\<rparr>;
        flag = \<lparr>flagged = True, hasMine = False, revealed = False, touchingFlags = 0, touchingMines = 0\<rparr>;
        hole = \<lparr>flagged = False, hasMine = True, revealed = True, touchingFlags = 0, touchingMines = 2\<rparr>;
        three = \<lparr>flagged = False, hasMine = False, revealed = True, touchingFlags = 0, touchingMines = 3\<rparr>;
        label = (\<lambda>c. getAttribute (stateOf (updateButton m (Some (Button 3)) c 1 1)) (Button 3) ''aria-label'')
    in additionalButtonData m (Button 3) = Some (1, 1, defaultCell) \<and>
       label blank = Some ''blank'' \<and> label flag = Some ''flag'' \<and>
       label hole = Some ''black hole'' \<and> label three = Some ''3'' \<and>
       (\<exists>d. label three = Some d \<and> specDescription three d) \<and>
       getAttribute m (Button 2) ''aria-label'' = Some ''hidden'' \<and>
       boardInv m \<and> allInGrid m [(1, 1, blank)] \<and> inGrid m 1 1 \<and>
       lastAt (width m) [(1, 1, blank)] (1 * width m + 1) = Some blank \<and>
       getAttribute (stateOf (doManualDomHandling m \<lparr>gridChanges = Some [(1, 1, blank)]\<rparr>))
         (buttons m ! nat (1 * width m + 1)) ''aria-label'' = Some ''blank'')"
proof -
  let ?m = "mounted 2 2 False False"
  let ?blank = "\<lparr>flagged = False, hasMine = False, revealed = True, touchingFlags = 0, touchingMines = 0\<rparr>"
  let ?flag = "\<lparr>flagged = True, hasMine = False, revealed = False, touchingFlags = 0, touchingMines = 0\<rparr>"
  let ?hole = "\<lparr>flagged = False, hasMine = True, revealed = True, touchingFlags = 0, touchingMines = 2\<rparr>"
  let ?three = "\<lparr>flagged = False, hasMine = False, revealed = True, touchingFlags = 0, touchingMines = 3\<rparr>"
  have d: "additionalButtonData ?m (Button 3) = Some (1, 1, defaultCell)"
    by (simp add: mounted_data)
  have inv: "boardInv ?m" by (simp add: mounted_inv)
  have wh: "width ?m = 2" "height ?m = 2" by (simp_all add: mounted_built)
  have ig: "inGrid ?m 1 1" by (simp add: inGrid_def wh)
  have ag: "allInGrid ?m [(1, 1, ?blank)]" by (simp add: allInGrid_def ig)
  have la: "lastAt (width ?m) [(1, 1, ?blank)] (1 * width ?m + 1) = Some ?blank" by simp
  have three: "numberToString 3 = ''3''" by code_simp
  have l3: "getAttribute (stateOf (updateButton ?m (Some (Button 3)) ?three 1 1)) (Button 3) ''aria-label''
      = Some ''3''"
    by (simp add: updateButton_updated [OF d] cellState_def three)
  have hid: "getAttribute ?m (Button 2) ''aria-label'' = Some ''hidden''"
    using description_follows_precedence [of ?m "Button 3" 1 1 defaultCell ?blank 1 1 2 2 2 False False
        "Some Body" "[(1, 1, ?blank)]" 1 1 ?blank]
    by (auto simp: mounted_Ok)
  show ?thesis
    unfolding Let_def
    using d inv ig ag la l3 hid
      description_follows_precedence [of ?m "Button 3" 1 1 defaultCell ?blank 1 1 2 2 2 False False
        "Some Body" "[(1, 1, ?blank)]" 1 1 ?blank]
      description_follows_precedence [of ?m "Button 3" 1 1 defaultCell ?flag 1 1 2 2 2 False False
        "Some Body" "[(1, 1, ?blank)]" 1 1 ?blank]
      description_follows_precedence [of ?m "Button 3" 1 1 defaultCell ?hole 1 1 2 2 2 False False
        "Some Body" "[(1, 1, ?blank)]" 1 1 ?blank]
      description_follows_precedence [of ?m "Button 3" 1 1 defaultCell ?three 1 1 2 2 2 False False
        "Some Body" "[(1, 1, ?blank)]" 1 1 ?blank]
    by (auto simp: specDescription_def)
qed

text \<open>
  Claim C2, as the code has it: a notification without a \<open>gridChanges\<close> field is a
  no-op. A notification with the field, empty or not, whose changes all have
  coordinates of the grid, writes the description of each change to the element at
  index \<open>y * width + x\<close>, in the order of the batch, and then calls the animator exactly
  once with the whole batch: the log of effects grows by the label writes followed by
  that one call. Afterwards the side table holds, for every element that the batch
  addresses, the cell of the last change that addresses it, under the element's own
  coordinate; the other elements, the tabable button, the active element and every
  \<open>tabindex\<close> mark are as before.
\<close>

theorem doManualDomHandling_batch:
  "(gridChanges sc = None \<longrightarrow> doManualDomHandling s sc = Ok s) \<and>
   (boardInv s \<and> gridChanges sc = Some gc \<and> allInGrid s gc \<longrightarrow>
      (\<exists>s'. doManualDomHandling s sc = Ok s' \<and>
            effects s' = effects s @ map (labelWrite s) gc @ [AnimatorUpdateCells gc] \<and>
            (\<forall>i<gridSize s.
               additionalButtonData s' (buttons s ! i) =
                 (case lastAt (width s) gc (int i) of
                    None \<Rightarrow> additionalButtonData s (buttons s ! i)
                  | Some c \<Rightarrow> Some (int i mod width s, int i div width s, c)) \<and>
               getAttribute s' (buttons s ! i) ''aria-label'' =
                 (case lastAt (width s) gc (int i) of
                    None \<Rightarrow> getAttribute s (buttons s ! i) ''aria-label''
                  | Some c \<Rightarrow> Some (cellState c))) \<and>
            currentTabableBtn s' = currentTabableBtn s \<and> activeElement s' = activeElement s \<and>
            (\<forall>e. tabindexOf s' e = tabindexOf s e)))"
proof (intro conjI impI)
  assume "gridChanges sc = None"
  then show "doManualDomHandling s sc = Ok s" by (simp add: doManualDomHandling_def)
next
  assume a: "boardInv s \<and> gridChanges sc = Some gc \<and> allInGrid s gc"
  then have inv: "boardInv s" and sc: "gridChanges sc = Some gc" and gc: "allInGrid s gc"
    by simp_all
  let ?s' = "logEffect (AnimatorUpdateCells gc) (applied s gc)"
  have bt: "buttons s ! i = Button i" if "i < gridSize s" for i
    using inv that by (simp add: boardInv_def)
  have r: "doManualDomHandling s sc = Ok ?s'" by (rule doManualDomHandling_applied [OF inv gc sc])
  have e: "effects ?s' = effects s @ map (labelWrite s) gc @ [AnimatorUpdateCells gc]"
    by (simp add: applied_effects [OF inv gc])
  have t: "\<forall>i<gridSize s.
               additionalButtonData ?s' (buttons s ! i) =
                 (case lastAt (width s) gc (int i) of
                    None \<Rightarrow> additionalButtonData s (buttons s ! i)
                  | Some c \<Rightarrow> Some (int i mod width s, int i div width s, c)) \<and>
               getAttribute ?s' (buttons s ! i) ''aria-label'' =
                 (case lastAt (width s) gc (int i) of
                    None \<Rightarrow> getAttribute s (buttons s ! i) ''aria-label''
                  | Some c \<Rightarrow> Some (cellState c))"
  proof (intro allI impI)
    fix i assume "i < gridSize s"
    then have b: "buttons s ! i = Button i" by (rule bt)
    have "getAttribute ?s' (Button i) ''aria-label'' = getAttribute (applied s gc) (Button i) ''aria-label''"
      by (simp add: getAttribute_def)
    then show "additionalButtonData ?s' (buttons s ! i) =
                 (case lastAt (width s) gc (int i) of
                    None \<Rightarrow> additionalButtonData s (buttons s ! i)
                  | Some c \<Rightarrow> Some (int i mod width s, int i div width s, c)) \<and>
               getAttribute ?s' (buttons s ! i) ''aria-label'' =
                 (case lastAt (width s) gc (int i) of
                    None \<Rightarrow> getAttribute s (buttons s ! i) ''aria-label''
                  | Some c \<Rightarrow> Some (cellState c))"
      unfolding b using applied_data [OF inv gc, of i] applied_label [OF inv gc, of i] by simp
  qed
  have f: "currentTabableBtn ?s' = currentTabableBtn s" "activeElement ?s' = activeElement s"
    "\<forall>e. tabindexOf ?s' e = tabindexOf s e"
    using applied_fields(8) [of s gc] by (simp_all add: tabindexOf_def getAttribute_def)
  from r e t f
  show "\<exists>s'. doManualDomHandling s sc = Ok s' \<and>
            effects s' = effects s @ map (labelWrite s) gc @ [AnimatorUpdateCells gc] \<and>
            (\<forall>i<gridSize s.
               additionalButtonData s' (buttons s ! i) =
                 (case lastAt (width s) gc (int i) of
                    None \<Rightarrow> additionalButtonData s (buttons s ! i)
                  | Some c \<Rightarrow> Some (int i mod width s, int i div width s, c)) \<and>
               getAttribute s' (buttons s ! i) ''aria-label'' =
                 (case lastAt (width s) gc (int i) of
                    None \<Rightarrow> getAttribute s (buttons s ! i) ''aria-label''
                  | Some c \<Rightarrow> Some (cellState c))) \<and>
            currentTabableBtn s' = currentTabableBtn s \<and> activeElement s' = activeElement s \<and>
            (\<forall>e. tabindexOf s' e = tabindexOf s e)"
    by (intro exI [of _ ?s']) blast
qed

theorem doManualDomHandling_batch_witness:
  "(let m = mounted 2 2 False False;
        blank = \<lparr>flagged = False, hasMine = False, revealed = True, touchingFlags = 0, touchingMines = 0\<rparr>;
        s' = stateOf (doManualDomHandling m \<lparr>gridChanges = Some [(1, 1, blank)]\<rparr>)
    in doManualDomHandling m \<lparr>gridChanges = None\<rparr> = Ok m \<and>
       boardInv m \<and> allInGrid m [(1, 1, blank)] \<and>
       effects s' = effects m @ [SetAttribute (Button 3) ''aria-label'' ''blank'',
                                 AnimatorUpdateCells [(1, 1, blank)]] \<and>
       additionalButtonData s' (Button 3) = Some (1, 1, blank) \<and>
       additionalButtonData s' (Button 2) = Some (0, 1, defaultCell) \<and>
       getAttribute s' (Button 3) ''aria-label'' = Some ''blank'' \<and>
       currentTabableBtn s' = Some (Button 0))"
proof -
  let ?m = "mounted 2 2 False False"
  let ?blank = "\<lparr>flagged = False, hasMine = False, revealed = True, touchingFlags = 0, touchingMines = 0\<rparr>"
  have inv: "boardInv ?m" by (simp add: mounted_inv)
  have wh: "width ?m = 2" "height ?m = 2" by (simp_all add: mounted_built)
  have g: "gridSize ?m = 4" by (simp add: gridSize_def wh)
  have ag: "allInGrid ?m [(1, 1, ?blank)]" by (simp add: allInGrid_def inGrid_def wh)
  have bt: "buttons ?m ! 3 = Button 3" "buttons ?m ! 2 = Button 2"
    using inv by (simp_all add: boardInv_def g)
  have lw: "labelWrite ?m (1, 1, ?blank) = SetAttribute (Button 3) ''aria-label'' ''blank''"
    by (simp add: labelWrite_def wh bt cellState_def)
  have d2: "additionalButtonData ?m (Button 2) = Some (0, 1, defaultCell)"
    by (simp add: mounted_data)
  have t: "currentTabableBtn ?m = Some (Button 0)" by (simp add: mounted_tabable)
  from doManualDomHandling_batch [of "\<lparr>gridChanges = Some [(1, 1, ?blank)]\<rparr>" ?m "[(1, 1, ?blank)]"]
    inv ag
  obtain s' where s': "doManualDomHandling ?m \<lparr>gridChanges = Some [(1, 1, ?blank)]\<rparr> = Ok s'"
    "effects s' = effects ?m @ map (labelWrite ?m) [(1, 1, ?blank)] @ [AnimatorUpdateCells [(1, 1, ?blank)]]"
    "\<forall>i<gridSize ?m.
               additionalButtonData s' (buttons ?m ! i) =
                 (case lastAt (width ?m) [(1, 1, ?blank)] (int i) of
                    None \<Rightarrow> additionalButtonData ?m (buttons ?m ! i)
                  | Some c \<Rightarrow> Some (int i mod width ?m, int i div width ?m, c)) \<and>
               getAttribute s' (buttons ?m ! i) ''aria-label'' =
                 (case lastAt (width ?m) [(1, 1, ?blank)] (int i) of
                    None \<Rightarrow> getAttribute ?m (buttons ?m ! i) ''aria-label''
                  | Some c \<Rightarrow> Some (cellState c))"
    "currentTabableBtn s' = currentTabableBtn ?m"
    by auto
  from s'(3) [rule_format, of 3] s'(3) [rule_format, of 2]
  have "additionalButtonData s' (Button 3) = Some (1, 1, ?blank)"
    "additionalButtonData s' (Button 2) = Some (0, 1, defaultCell)"
    "getAttribute s' (Button 3) ''aria-label'' = Some ''blank''"
    by (simp_all add: g wh bt d2 cellState_def)
  with s'(1,2,4) inv ag lw t
    doManualDomHandling_batch [of "\<lparr>gridChanges = None\<rparr>" ?m "[]"]
  show ?thesis unfolding Let_def by simp
qed

text \<open>
  The claim as the specification states it fails for a notification that has the
  field but carries no change: the list is a truthy value, the guard does not return,
  and the animator is called with the empty batch.
\<close>

theorem empty_batch_counterexample:
  "\<not> (doManualDomHandling (mounted 2 2 False False) \<lparr>gridChanges = Some []\<rparr>
        = Ok (mounted 2 2 False False))"
proof
  assume "doManualDomHandling (mounted 2 2 False False) \<lparr>gridChanges = Some []\<rparr>
        = Ok (mounted 2 2 False False)"
  then have "effects (logEffect (AnimatorUpdateCells []) (mounted 2 2 False False))
      = effects (mounted 2 2 False False)"
    by (simp add: doManualDomHandling_def)
  then show False by simp
qed

lemma div_lt_height:
  assumes w: "0 < (w::int)" and i: "i < w * h"
  shows "i div w < h"
proof (rule ccontr)
  assume "\<not> i div w < h"
  then have "h \<le> i div w" by simp
  then have "w * h \<le> w * (i div w)" using w by (intro mult_left_mono) simp_all
  also have "\<dots> \<le> i" using pos_mod_sign [OF w, of i] mult_div_mod_eq [of w i] by linarith
  finally show False using i by simp
qed

text \<open>
  Claim C10: a change whose coordinate is outside the grid is never skipped. When
  \<open>y * width + x\<close> is not an index of the button array, the read gives \<^verbatim>\<open>undefined\<close>
  and \<^verbatim>\<open>_updateButton\<close> throws a TypeError: the changes before it stay applied, the
  changes after it are not, and the animator is not called. When \<open>y * width + x\<close>
  happens to be an index of the array, the change is written to the element at that
  index, whose coordinate is not \<open>(x, y)\<close>. In neither case is the state left as it
  was. A batch whose changes all lie in the grid never throws.
\<close>

theorem change_outside_grid:
  assumes inv: "boardInv s" and out: "\<not> inGrid s x y"
  shows "applyChange (x, y, c) s \<noteq> Ok s \<and>
         (0 \<le> y * width s + x \<and> y * width s + x < width s * height s \<longrightarrow>
            (\<exists>s' bx by. applyChange (x, y, c) s = Ok s' \<and> (bx, by) \<noteq> (x, y) \<and>
               additionalButtonData s' (buttons s ! nat (y * width s + x)) = Some (bx, by, c) \<and>
               getAttribute s' (buttons s ! nat (y * width s + x)) ''aria-label'' = Some (cellState c))) \<and>
         (\<not> (0 \<le> y * width s + x \<and> y * width s + x < width s * height s) \<longrightarrow>
            applyChange (x, y, c) s = Throw TypeError s \<and>
            (allInGrid s pre \<longrightarrow>
               doManualDomHandling s \<lparr>gridChanges = Some (pre @ (x, y, c) # post)\<rparr>
                 = Throw TypeError (applied s pre) \<and>
               effects (applied s pre) = effects s @ map (labelWrite s) pre)) \<and>
         (allInGrid s gc \<longrightarrow> isOk (doManualDomHandling s \<lparr>gridChanges = Some gc\<rparr>))"
proof -
  let ?i = "y * width s + x"
  have w: "0 < width s" and h: "0 < height s" using inv by (simp_all add: boardInv_def)
  have len: "length (buttons s) = gridSize s" using inv by (simp add: boardInv_def)
  have inside: "\<exists>bx by. applyChange (x, y, c) s = Ok (updated s (Button (nat ?i)) bx by c) \<and>
      (bx, by) \<noteq> (x, y) \<and> buttons s ! nat ?i = Button (nat ?i)"
    if r: "0 \<le> ?i" "?i < width s * height s"
  proof -
    have lt: "nat ?i < gridSize s" using r by (simp add: gridSize_def)
    from boardInv_button [OF inv lt] r(1) obtain old where
      d: "additionalButtonData s (Button (nat ?i)) = Some (?i mod width s, ?i div width s, old)"
      by auto
    have bt: "buttons s ! nat ?i = Button (nat ?i)" using inv lt by (simp add: boardInv_def)
    have ag: "arrayGet (buttons s) ?i = Some (Button (nat ?i))"
      using r(1) lt len bt by (simp add: arrayGet_def)
    have ig: "inGrid s (?i mod width s) (?i div width s)"
      using w r pos_mod_sign [OF w, of ?i] pos_mod_bound [OF w, of ?i]
        div_lt_height [OF w r(2)] pos_imp_zdiv_nonneg_iff [OF w, of ?i]
      by (simp add: inGrid_def)
    have ne: "(?i mod width s, ?i div width s) \<noteq> (x, y)"
    proof
      assume "(?i mod width s, ?i div width s) = (x, y)"
      then have "?i mod width s = x" and "?i div width s = y" by simp_all
      with ig have "inGrid s x y" by (simp only:)
      with out show False ..
    qed
    from updateButton_updated [OF d] ag ne bt show ?thesis
      by (auto simp: applyChange_def)
  qed
  have outside: "arrayGet (buttons s) ?i = None"
    if "\<not> (0 \<le> ?i \<and> ?i < width s * height s)"
    using that len w h by (auto simp: arrayGet_def gridSize_def)
  have thr: "applyChange (x, y, c) s' = Throw TypeError s'"
    if "\<not> (0 \<le> ?i \<and> ?i < width s * height s)" and "buttons s' = buttons s"
      and "width s' = width s" for s'
    using outside [OF that(1)] that(2,3) by (simp add: applyChange_def updateButton_undefined)
  show ?thesis
  proof (intro conjI impI)
    show "applyChange (x, y, c) s \<noteq> Ok s"
    proof (cases "0 \<le> ?i \<and> ?i < width s * height s")
      case True
      with inside obtain bx "by" where
        "applyChange (x, y, c) s = Ok (updated s (Button (nat ?i)) bx by c)" by blast
      moreover have "effects (updated s (Button (nat ?i)) bx by c) \<noteq> effects s" by simp
      then have "updated s (Button (nat ?i)) bx by c \<noteq> s" by metis
      ultimately show ?thesis by simp
    next
      case False
      with thr [of s] show ?thesis by simp
    qed
  next
    assume "0 \<le> ?i \<and> ?i < width s * height s"
    with inside obtain bx "by" where
      "applyChange (x, y, c) s = Ok (updated s (Button (nat ?i)) bx by c)" "(bx, by) \<noteq> (x, y)"
      "buttons s ! nat ?i = Button (nat ?i)" by blast
    then show "\<exists>s' bx by. applyChange (x, y, c) s = Ok s' \<and> (bx, by) \<noteq> (x, y) \<and>
               additionalButtonData s' (buttons s ! nat ?i) = Some (bx, by, c) \<and>
               getAttribute s' (buttons s ! nat ?i) ''aria-label'' = Some (cellState c)"
      by (intro exI [of _ "updated s (Button (nat ?i)) bx by c"] exI [of _ bx] exI [of _ "by"]) simp
  next
    assume "\<not> (0 \<le> ?i \<and> ?i < width s * height s)"
    then show "applyChange (x, y, c) s = Throw TypeError s" using thr [of s] by simp
  next
    assume o: "\<not> (0 \<le> ?i \<and> ?i < width s * height s)" and pre: "allInGrid s pre"
    from forEach_applied [OF inv pre] thr [OF o, of "applied s pre"]
    show "doManualDomHandling s \<lparr>gridChanges = Some (pre @ (x, y, c) # post)\<rparr>
        = Throw TypeError (applied s pre)"
      by (simp add: doManualDomHandling_def forEach_append)
    show "effects (applied s pre) = effects s @ map (labelWrite s) pre"
      by (rule applied_effects [OF inv pre])
  next
    assume "allInGrid s gc"
    from doManualDomHandling_applied [OF inv this, of "\<lparr>gridChanges = Some gc\<rparr>"]
    show "isOk (doManualDomHandling s \<lparr>gridChanges = Some gc\<rparr>)" by simp
  qed
qed


theorem change_outside_grid_witness:
  "(let m = mounted 2 2 False False;
        hole = \<lparr>flagged = False, hasMine = True, revealed = True, touchingFlags = 0, touchingMines = 1\<rparr>;
        wrapped = stateOf (applyChange (2, 0, hole) m)
    in boardInv m \<and> \<not> inGrid m (- 1) 0 \<and> \<not> inGrid m 2 0 \<and> allInGrid m [(0, 0, hole)] \<and>
       applyChange (- 1, 0, hole) m = Throw TypeError m \<and>
       doManualDomHandling m \<lparr>gridChanges = Some ([(0, 0, hole)] @ (- 1, 0, hole) # [(1, 1, hole)])\<rparr>
         = Throw TypeError (applied m [(0, 0, hole)]) \<and>
       isOk (applyChange (2, 0, hole) m) \<and> applyChange (2, 0, hole) m \<noteq> Ok m \<and>
       (\<exists>bx by. (bx, by) \<noteq> (2, 0) \<and> additionalButtonData wrapped (Button 2) = Some (bx, by, hole)) \<and>
       getAttribute wrapped (Button 2) ''aria-label'' = Some ''black hole'')"
proof -
  let ?m = "mounted 2 2 False False"
  let ?hole = "\<lparr>flagged = False, hasMine = True, revealed = True, touchingFlags = 0, touchingMines = 1\<rparr>"
  have inv: "boardInv ?m" by (simp add: mounted_inv)
  have wh: "width ?m = 2" "height ?m = 2" by (simp_all add: mounted_built)
  have o1: "\<not> inGrid ?m (- 1) 0" and o2: "\<not> inGrid ?m 2 0" by (simp_all add: inGrid_def wh)
  have ag: "allInGrid ?m [(0, 0, ?hole)]" by (simp add: allInGrid_def inGrid_def wh)
  have bt: "buttons ?m ! 2 = Button 2"
    using inv by (simp add: boardInv_def gridSize_def wh)
  have cs: "cellState ?hole = ''black hole''" by (simp add: cellState_def)
  from change_outside_grid [OF inv o1, of ?hole "[(0, 0, ?hole)]" "[(1, 1, ?hole)]" "[]"] ag
  have a: "applyChange (- 1, 0, ?hole) ?m = Throw TypeError ?m"
    "doManualDomHandling ?m \<lparr>gridChanges = Some ([(0, 0, ?hole)] @ (- 1, 0, ?hole) # [(1, 1, ?hole)])\<rparr>
         = Throw TypeError (applied ?m [(0, 0, ?hole)])"
    by (simp_all add: wh)
  from change_outside_grid [OF inv o2, of ?hole "[]" "[]" "[]"]
  obtain s' bx "by" where b: "applyChange (2, 0, ?hole) ?m = Ok s'" "(bx, by) \<noteq> (2, 0)"
    "additionalButtonData s' (Button 2) = Some (bx, by, ?hole)"
    "getAttribute s' (Button 2) ''aria-label'' = Some ''black hole''"
    "applyChange (2, 0, ?hole) ?m \<noteq> Ok ?m"
    by (auto simp: wh bt cs)
  show ?thesis
    unfolding Let_def using inv o1 o2 ag a b by auto
qed

section \<open>Events with an unresolvable target\<close>










end
